theory Spec2Isabelle
  imports Complex_Main "HOL-Library.Sublist"
begin

section \<open>Python strings and the library context\<close>

text \<open>
  A Python \<open>str\<close> is a sequence of Unicode code points; a code point is a natural
  number. \<open>ustr\<close> writes an ASCII literal of the source as such a sequence.
\<close>

type_synonym cp = nat
type_synonym pystr = "cp list"

definition ustr :: "string \<Rightarrow> pystr" where
  "ustr s = map of_char s"

text \<open>
  \<open>server.py\<close> calls into the Python standard library and pandas. What these do on
  ASCII text is written out below. What they do beyond it is decided by data that is
  not part of the repository (the Unicode character database, the rest of the regular
  expression language, the pseudo-random sampler of pandas); that part is a parameter
  of the model, the record \<open>pylib\<close>:

  \<^item> \<open>u_decomp c\<close>: the full compatibility decomposition of a non-ASCII code point;
  \<^item> \<open>u_ccc c\<close>: its canonical combining class;
  \<^item> \<open>u_Mn c\<close>: whether its general category is Mn;
  \<^item> \<open>u_lower c\<close>: its full lowercase mapping;
  \<^item> \<open>u_final_sigma s i\<close>: whether the capital sigma at position \<open>i\<close> of \<open>s\<close> is in final
    position (the one context-sensitive rule of \<open>str.lower\<close>);
  \<^item> \<open>u_space\<close>, \<open>u_alpha\<close>, \<open>u_digit\<close>: \<open>str.isspace\<close>, \<open>str.isalpha\<close> and
    \<open>str.isdigit\<close> on a non-ASCII code point;
  \<^item> \<open>re_other pat\<close>: what compiling a pattern outside the fragment modelled below
    gives: \<open>None\<close> when \<open>re.error\<close> is raised, otherwise the test "\<open>search\<close> finds a
    match in this string";
  \<^item> \<open>sample_idx seed n k\<close>: the positions that \<open>Series.sample(k, random_state=seed)\<close>
    draws from a series of \<open>n\<close> cells, in the order it draws them;
  \<^item> \<open>f_mean xs\<close>: what \<open>Series.mean()\<close> gives for a series of the float64 values
    \<open>xs\<close> (or of booleans, as 0 and 1): \<open>None\<close> for NaN. The order in which the
    values are added in float64 is the library's.
\<close>

record pylib =
  u_decomp :: "cp \<Rightarrow> pystr"
  u_ccc :: "cp \<Rightarrow> nat"
  u_Mn :: "cp \<Rightarrow> bool"
  u_lower :: "cp \<Rightarrow> pystr"
  u_final_sigma :: "pystr \<Rightarrow> nat \<Rightarrow> bool"
  u_space :: "cp \<Rightarrow> bool"
  u_alpha :: "cp \<Rightarrow> bool"
  u_digit :: "cp \<Rightarrow> bool"
  re_other :: "pystr \<Rightarrow> (pystr \<Rightarrow> bool) option"
  sample_idx :: "nat \<Rightarrow> nat \<Rightarrow> nat \<Rightarrow> nat list"
  f_mean :: "real list \<Rightarrow> real option"

subsection \<open>\<open>str.strip\<close>, \<open>str.lower\<close>, \<open>str.startswith\<close>, \<open>str.isalpha\<close>, \<open>str.isdigit\<close>\<close>

text \<open>
  The ASCII code points for which \<open>str.isspace\<close> holds are TAB, LF, VT, FF, CR
  (9 to 13), the separators FS, GS, RS, US (28 to 31) and the space (32).
\<close>

definition isspace :: "pylib \<Rightarrow> cp \<Rightarrow> bool" where
  "isspace L c = (if c < 128 then (9 \<le> c \<and> c \<le> 13) \<or> (28 \<le> c \<and> c \<le> 32) else u_space L c)"

definition strip :: "pylib \<Rightarrow> pystr \<Rightarrow> pystr" where
  "strip L s = rev (dropWhile (isspace L) (rev (dropWhile (isspace L) s)))"

definition lower_cp :: "pylib \<Rightarrow> cp \<Rightarrow> pystr" where
  "lower_cp L c =
     (if 65 \<le> c \<and> c \<le> 90 then [c + 32] else if c < 128 then [c] else u_lower L c)"

text \<open>
  \<open>str.lower\<close> maps each code point by its full lowercase mapping, but for the capital
  sigma (U+03A3, 931), which becomes the final sigma (962) or the small sigma (963).
\<close>

definition lower_at :: "pylib \<Rightarrow> pystr \<Rightarrow> nat \<Rightarrow> pystr" where
  "lower_at L s i =
     (if s ! i = 931 then [if u_final_sigma L s i then 962 else 963] else lower_cp L (s ! i))"

definition lower :: "pylib \<Rightarrow> pystr \<Rightarrow> pystr" where
  "lower L s = concat (map (lower_at L s) [0..<length s])"

definition startswith :: "pystr \<Rightarrow> pystr \<Rightarrow> bool" where
  "startswith s p = (take (length p) s = p)"

definition isalpha :: "pylib \<Rightarrow> cp \<Rightarrow> bool" where
  "isalpha L c =
     (if c < 128 then (65 \<le> c \<and> c \<le> 90) \<or> (97 \<le> c \<and> c \<le> 122) else u_alpha L c)"

definition isdigit :: "pylib \<Rightarrow> cp \<Rightarrow> bool" where
  "isdigit L c = (if c < 128 then 48 \<le> c \<and> c \<le> 57 else u_digit L c)"

subsection \<open>\<open>unicodedata.normalize("NFKD", _)\<close> and \<open>strip_marks\<close>\<close>

text \<open>
  NFKD replaces every code point by its full compatibility decomposition and then puts
  the result in canonical order: a code point of non-zero combining class moves left
  across the code points of greater class that precede it. No ASCII code point has a
  decomposition, a non-zero class or the category Mn.
\<close>

definition decomp_cp :: "pylib \<Rightarrow> cp \<Rightarrow> pystr" where
  "decomp_cp L c = (if c < 128 then [c] else u_decomp L c)"

definition ccc :: "pylib \<Rightarrow> cp \<Rightarrow> nat" where
  "ccc L c = (if c < 128 then 0 else u_ccc L c)"

definition is_Mn :: "pylib \<Rightarrow> cp \<Rightarrow> bool" where
  "is_Mn L c = (128 \<le> c \<and> u_Mn L c)"

text \<open>The second argument of \<open>reorder_insert\<close> is the output so far, last code point first.\<close>

fun reorder_insert :: "(cp \<Rightarrow> nat) \<Rightarrow> cp \<Rightarrow> pystr \<Rightarrow> pystr" where
  "reorder_insert k c [] = [c]"
| "reorder_insert k c (d # ds) =
     (if k c \<noteq> 0 \<and> k c < k d then d # reorder_insert k c ds else c # d # ds)"

definition canonical_order :: "(cp \<Rightarrow> nat) \<Rightarrow> pystr \<Rightarrow> pystr" where
  "canonical_order k s = rev (foldl (\<lambda>acc c. reorder_insert k c acc) [] s)"

definition nfkd :: "pylib \<Rightarrow> pystr \<Rightarrow> pystr" where
  "nfkd L s = canonical_order (ccc L) (concat (map (decomp_cp L) s))"

text \<open>
  \<^verbatim>\<open>
  def strip_marks(text: str) -> str:
      if not isinstance(text, str):
          text = "" if text is None else str(text)
      norm = unicodedata.normalize("NFKD", text)
      return "".join(ch for ch in norm if unicodedata.category(ch) != "Mn").lower().strip()
  \<close>
  Every caller passes a \<open>str\<close> (a cell of a frame read with \<open>dtype=str\<close>, or the query
  parameter), so the first branch is never taken.
\<close>

definition strip_marks :: "pylib \<Rightarrow> pystr \<Rightarrow> pystr" where
  "strip_marks L text = strip L (lower L (filter (\<lambda>ch. \<not> is_Mn L ch) (nfkd L text)))"

subsection \<open>Regular expressions\<close>

text \<open>
  \<open>Series.str.contains(pat, na=False)\<close> has \<open>regex=True\<close> by default: it compiles
  \<open>pat\<close> as a regular expression and tests every cell with \<open>search\<close>. The special
  characters of the pattern language are \<^verbatim>\<open>. ^ $ * + ? { } [ ] \ | ( )\<close>.
  Two fragments are written out:
  \<^item> a pattern of ordinary characters and dots: an ordinary character matches itself,
    a dot matches any code point but the line feed (10);
  \<^item> a pattern of ordinary characters, dots and at least one opening parenthesis: the
    group is never closed and compiling raises \<open>re.error\<close>.
  Every other pattern is left to \<open>re_other\<close>.
\<close>

definition re_special :: "cp \<Rightarrow> bool" where
  "re_special c = (c \<in> set [46, 94, 36, 42, 43, 63, 123, 125, 91, 93, 92, 124, 40, 41])"

fun match_here :: "pystr \<Rightarrow> pystr \<Rightarrow> bool" where
  "match_here [] s = True"
| "match_here (p # ps) [] = False"
| "match_here (p # ps) (c # cs) = ((if p = 46 then c \<noteq> 10 else p = c) \<and> match_here ps cs)"

fun search_dots :: "pystr \<Rightarrow> pystr \<Rightarrow> bool" where
  "search_dots pat [] = match_here pat []"
| "search_dots pat (c # cs) = (match_here pat (c # cs) \<or> search_dots pat cs)"

definition re_compile :: "pylib \<Rightarrow> pystr \<Rightarrow> (pystr \<Rightarrow> bool) option" where
  "re_compile L pat =
     (if list_all (\<lambda>c. c = 46 \<or> \<not> re_special c) pat then Some (search_dots pat)
      else if list_all (\<lambda>c. c = 46 \<or> c = 40 \<or> \<not> re_special c) pat then None
      else re_other L pat)"

definition str_contains :: "pylib \<Rightarrow> pystr list \<Rightarrow> pystr \<Rightarrow> bool list option" where
  "str_contains L ser pat =
     (case re_compile L pat of None \<Rightarrow> None | Some m \<Rightarrow> Some (map m ser))"

text \<open>
  \<open>s.str.fullmatch(re.compile(r"^[A-Z]{2,4}[0-9]{5,8}$"))\<close>: the whole cell is two to
  four letters of A to Z followed by five to eight digits of 0 to 9.
\<close>

definition is_AZ :: "cp \<Rightarrow> bool" where
  "is_AZ c = (65 \<le> c \<and> c \<le> 90)"

definition is_09 :: "cp \<Rightarrow> bool" where
  "is_09 c = (48 \<le> c \<and> c \<le> 57)"

definition epic_fullmatch :: "pystr \<Rightarrow> bool" where
  "epic_fullmatch x =
     (let a = takeWhile is_AZ x; d = dropWhile is_AZ x
      in 2 \<le> length a \<and> length a \<le> 4 \<and> 5 \<le> length d \<and> length d \<le> 8 \<and> list_all is_09 d)"

section \<open>Data frames\<close>

text \<open>
  A frame read by \<open>pd.read_csv(path, dtype=str, na_filter=False)\<close> is a sequence of
  labelled columns of string cells. \<open>read_csv\<close> makes the labels distinct and
  non-empty, and all columns have the same length.
\<close>

type_synonym frame = "(pystr \<times> pystr list) list"

datatype error =
  FileNotFoundError | CsvError nat | HTTPException nat | ReError
  | KeyError | IndexError | TypeError

definition columns :: "frame \<Rightarrow> pystr list" where
  "columns df = map fst df"

definition nrows :: "frame \<Rightarrow> nat" where
  "nrows df = (case df of [] \<Rightarrow> 0 | (c, cells) # _ \<Rightarrow> length cells)"

definition wf_frame :: "frame \<Rightarrow> bool" where
  "wf_frame df =
     (distinct (columns df) \<and> list_all (\<lambda>c. c \<noteq> []) (columns df)
      \<and> list_all (\<lambda>(c, cells). length cells = nrows df) df)"

definition get_col :: "frame \<Rightarrow> pystr \<Rightarrow> error + pystr list" where
  "get_col df c = (case map_of df c of None \<Rightarrow> Inl KeyError | Some cells \<Rightarrow> Inr cells)"

text \<open>\<open>d[k] = v\<close> on an ordered dictionary, and \<open>df[c] = cells\<close> on a frame.\<close>

fun set_item :: "('k \<times> 'v) list \<Rightarrow> 'k \<Rightarrow> 'v \<Rightarrow> ('k \<times> 'v) list" where
  "set_item [] k v = [(k, v)]"
| "set_item ((k', v') # d) k v = (if k' = k then (k, v) # d else (k', v') # set_item d k v)"

text \<open>\<open>ser[mask]\<close> and \<open>df[mask]\<close> for a boolean mask.\<close>

definition select :: "bool list \<Rightarrow> 'a list \<Rightarrow> 'a list" where
  "select msk xs = map fst (filter snd (zip xs msk))"

definition select_rows :: "bool list \<Rightarrow> frame \<Rightarrow> frame" where
  "select_rows msk df = map (\<lambda>(c, cells). (c, select msk cells)) df"

definition empty_frame :: "frame \<Rightarrow> bool" where
  "empty_frame df = (df = [] \<or> nrows df = 0)"

definition row_at :: "frame \<Rightarrow> nat \<Rightarrow> (pystr \<times> pystr) list" where
  "row_at df i = map (\<lambda>(c, cells). (c, cells ! i)) df"

definition iterrows :: "frame \<Rightarrow> (pystr \<times> pystr) list list" where
  "iterrows df = map (row_at df) [0..<nrows df]"

text \<open>\<open>Series.drop_duplicates()\<close> keeps the first occurrence of every value.\<close>

fun drop_dups :: "'a list \<Rightarrow> 'a list \<Rightarrow> 'a list" where
  "drop_dups seen [] = []"
| "drop_dups seen (x # xs) =
     (if x \<in> set seen then drop_dups seen xs else x # drop_dups (x # seen) xs)"

definition drop_duplicates :: "'a list \<Rightarrow> 'a list" where
  "drop_duplicates xs = drop_dups [] xs"

text \<open>
  \<open>Series.head(n)\<close>: the first \<open>n\<close> values; for a negative \<open>n\<close>, all but the last
  \<open>-n\<close> values (\<open>ser[:n]\<close>).
\<close>

definition head :: "int \<Rightarrow> 'a list \<Rightarrow> 'a list" where
  "head n xs = (if 0 \<le> n then take (nat n) xs else take (length xs - nat (- n)) xs)"

section \<open>The column role classifier\<close>

definition PREFERRED_NAME_COLUMNS :: "pystr list" where
  "PREFERRED_NAME_COLUMNS =
     [ustr ''full name'', ustr ''fullname'', ustr ''full_name'', ustr ''name_full'',
      ustr ''name'', [2344, 2366, 2350], [2344, 2366, 2357],
      [2344, 2366, 2350, 95, 2361, 2367, 2306, 2342, 2368],
      ustr ''Name'', ustr ''Full Name'', ustr ''Full_Name'']"

definition DISPLAY_COLS_PREFERENCE :: "pystr list" where
  "DISPLAY_COLS_PREFERENCE =
     [ustr ''Serial No.'', ustr ''Voter ID'', ustr ''Full Name (Marathi)'',
      ustr ''Full Name (English)'',
      ustr ''Relative'' @ [39] @ ustr ''s Name (Marathi)'',
      ustr ''Relative'' @ [39] @ ustr ''s Name (English)'',
      ustr ''Relationship'', ustr ''Age'', ustr ''Gender'', ustr ''House No.'',
      ustr ''Electoral Roll Ref'']"

subsection \<open>Floats\<close>

text \<open>
  A Python float is an IEEE 754 double: a real number with a 53-bit significand. \<open>fl\<close>
  rounds a real number to the nearest double, ties to the even significand; \<open>ulp\<close> is
  the distance between the doubles around a positive number, found by doubling or
  halving it into the interval from 1/2 to 1 (from 1 to 2). The smallest spacing is
  that of the subnormal numbers, \<open>2 ^ -1074\<close>; numbers of magnitude \<open>2 ^ 1024\<close> or more
  are not modelled (the program computes ratios between 0 and 1 and their means).
  NaN is \<open>None\<close>, and every comparison with NaN is false.
\<close>

definition round_even :: "real \<Rightarrow> int" where
  "round_even y =
     (let f = \<lfloor>y\<rfloor>
      in if y - of_int f < 1 / 2 then f
         else if 1 / 2 < y - of_int f then f + 1
         else if even f then f else f + 1)"

fun ulp_small :: "nat \<Rightarrow> real \<Rightarrow> real" where
  "ulp_small 0 x = 1 / 2 ^ 53"
| "ulp_small (Suc n) x = (if 1 \<le> 2 * x then 1 / 2 ^ 53 else ulp_small n (2 * x) / 2)"

fun ulp_big :: "nat \<Rightarrow> real \<Rightarrow> real" where
  "ulp_big 0 x = 1 / 2 ^ 52"
| "ulp_big (Suc n) x = (if x < 2 then 1 / 2 ^ 52 else 2 * ulp_big n (x / 2))"

definition ulp :: "real \<Rightarrow> real" where
  "ulp a = (if a < 1 then ulp_small 1021 a else ulp_big 1023 a)"

definition fl :: "real \<Rightarrow> real" where
  "fl x = (if 0 \<le> x then of_int (round_even (x / ulp x)) * ulp x
           else - (of_int (round_even (- x / ulp (- x))) * ulp (- x)))"

text \<open>\<open>a / b\<close> on two Python ints is the double nearest to the quotient.\<close>

definition truediv :: "nat \<Rightarrow> nat \<Rightarrow> real" where
  "truediv a b = fl (real a / real b)"

definition nan_ge :: "real option \<Rightarrow> real \<Rightarrow> bool" where
  "nan_ge m t = (case m of None \<Rightarrow> False | Some v \<Rightarrow> t \<le> v)"

text \<open>\<open>ser.sample(k, random_state=seed)\<close>\<close>

definition sample :: "pylib \<Rightarrow> nat \<Rightarrow> nat \<Rightarrow> 'a list \<Rightarrow> 'a list" where
  "sample L k seed ser = map (\<lambda>i. ser ! i) (sample_idx L seed (length ser) k)"

text \<open>
  \<^verbatim>\<open>
  def _is_probably_epic(series: pd.Series) -> bool:
      s = series.astype(str)
      pat = re.compile(r"^[A-Z]{2,4}[0-9]{5,8}$")
      match_rate = s.str.fullmatch(pat).mean()

      def digit_ratio(x: str) -> float:
          x = (x or "").strip()
          return 0.0 if not x else sum(ch.isdigit() for ch in x) / max(1, len(x))

      sample = s.sample(min(len(s), 300), random_state=0)
      digit_rate = sample.apply(digit_ratio).mean()
      return (match_rate >= 0.5) or (digit_rate >= 0.5)
  \<close>
\<close>

definition digit_ratio :: "pylib \<Rightarrow> pystr \<Rightarrow> real" where
  "digit_ratio L x =
     (let x' = strip L x
      in if x' = [] then 0
         else truediv (sum_list (map (\<lambda>ch. if isdigit L ch then 1 else 0) x'))
                (max 1 (length x')))"

definition match_rate :: "pylib \<Rightarrow> pystr list \<Rightarrow> real option" where
  "match_rate L s = f_mean L (map (\<lambda>x. if epic_fullmatch x then 1 else 0) s)"

definition digit_rate :: "pylib \<Rightarrow> pystr list \<Rightarrow> real option" where
  "digit_rate L s = f_mean L (map (digit_ratio L) (sample L (min (length s) 300) 0 s))"

definition is_probably_epic :: "pylib \<Rightarrow> pystr list \<Rightarrow> bool" where
  "is_probably_epic L s = (nan_ge (match_rate L s) (1 / 2) \<or> nan_ge (digit_rate L s) (1 / 2))"

text \<open>
  \<^verbatim>\<open>
  def _alpha_ratio(x: str) -> float:
      x = "" if x is None else str(x)
      n = len(x)
      return 0.0 if n == 0 else sum(ch.isalpha() for ch in x) / n
  \<close>
\<close>

definition alpha_ratio :: "pylib \<Rightarrow> pystr \<Rightarrow> real" where
  "alpha_ratio L x =
     (let n = length x
      in if n = 0 then 0
         else truediv (sum_list (map (\<lambda>ch. if isalpha L ch then 1 else 0) x)) n)"

text \<open>
  \<^verbatim>\<open>
  def pick_name_column(df: pd.DataFrame) -> str:
      if FORCE_NAME_COL and FORCE_NAME_COL in df.columns:
          return FORCE_NAME_COL
      lower_map = {c.lower(): c for c in df.columns}
      for cand in PREFERRED_NAME_COLUMNS:
          if cand.lower() in lower_map:
              return lower_map[cand.lower()]
      best, best_score = None, -1.0
      for c in df.columns:
          ser = df[c].astype(str)
          if _is_probably_epic(ser):
              continue
          score = ser.sample(min(len(ser), 300), random_state=1).apply(_alpha_ratio).mean()
          if score > best_score:
              best, best_score = c, score
      return best or df.columns[0]
  \<close>
  \<open>FORCE_NAME_COL\<close> is the environment variable \<open>NAME_COL\<close>, \<open>None\<close> when it is not
  set. The labels of a frame are distinct, so the last loop runs over the columns with
  their labels.
\<close>

definition force_col :: "pystr option \<Rightarrow> frame \<Rightarrow> pystr option" where
  "force_col force df =
     (case force of
        None \<Rightarrow> None
      | Some f \<Rightarrow> if f \<noteq> [] \<and> f \<in> set (columns df) then Some f else None)"

definition lower_map :: "pylib \<Rightarrow> pystr list \<Rightarrow> (pystr \<times> pystr) list" where
  "lower_map L cols = foldl (\<lambda>d c. set_item d (lower L c) c) [] cols"

fun first_preferred :: "pylib \<Rightarrow> (pystr \<times> pystr) list \<Rightarrow> pystr list \<Rightarrow> pystr option" where
  "first_preferred L d [] = None"
| "first_preferred L d (cand # cands) =
     (case map_of d (lower L cand) of
        Some c \<Rightarrow> Some c
      | None \<Rightarrow> first_preferred L d cands)"

definition score :: "pylib \<Rightarrow> pystr list \<Rightarrow> real option" where
  "score L ser = f_mean L (map (alpha_ratio L) (sample L (min (length ser) 300) 1 ser))"

fun heuristic_step ::
  "pylib \<Rightarrow> pystr option \<times> real \<Rightarrow> pystr \<times> pystr list \<Rightarrow> pystr option \<times> real" where
  "heuristic_step L (best, best_score) (c, ser) =
     (if is_probably_epic L ser then (best, best_score)
      else
        (case score L ser of
           None \<Rightarrow> (best, best_score)
         | Some v \<Rightarrow> if v > best_score then (Some c, v) else (best, best_score)))"

definition first_column :: "frame \<Rightarrow> error + pystr" where
  "first_column df = (case columns df of [] \<Rightarrow> Inl IndexError | c # _ \<Rightarrow> Inr c)"

definition heuristic :: "pylib \<Rightarrow> frame \<Rightarrow> error + pystr" where
  "heuristic L df =
     (case fst (foldl (heuristic_step L) (None, - 1) df) of
        None \<Rightarrow> first_column df
      | Some b \<Rightarrow> if b \<noteq> [] then Inr b else first_column df)"

definition pick_name_column :: "pylib \<Rightarrow> pystr option \<Rightarrow> frame \<Rightarrow> error + pystr" where
  "pick_name_column L force df =
     (case force_col force df of
        Some f \<Rightarrow> Inr f
      | None \<Rightarrow>
          (case first_preferred L (lower_map L (columns df)) PREFERRED_NAME_COLUMNS of
             Some c \<Rightarrow> Inr c
           | None \<Rightarrow> heuristic L df))"

text \<open>
  \<^verbatim>\<open>
  def build_display_cols(df: pd.DataFrame, name_col: str) -> List[str]:
      cols: List[str] = []
      if name_col not in cols:
          cols.append(name_col)
      for c in DISPLAY_COLS_PREFERENCE:
          if c in df.columns and c not in cols:
              cols.append(c)
      for c in df.columns:
          if c not in cols and not str(c).startswith("_"):
              cols.append(c)
      return cols
  \<close>
\<close>

definition internal :: "pystr \<Rightarrow> bool" where
  "internal c = startswith c (ustr ''_'')"

definition build_display_cols :: "frame \<Rightarrow> pystr \<Rightarrow> pystr list" where
  "build_display_cols df name_col =
     (let cols0 = (if name_col \<in> set [] then [] else [] @ [name_col]);
          cols1 = foldl (\<lambda>cols c. if c \<in> set (columns df) \<and> c \<notin> set cols then cols @ [c] else cols)
                    cols0 DISPLAY_COLS_PREFERENCE;
          cols2 = foldl (\<lambda>cols c. if c \<notin> set cols \<and> \<not> internal c then cols @ [c] else cols)
                    cols1 (columns df)
      in cols2)"

section \<open>The dataset store\<close>

text \<open>
  The module's globals \<open>DF\<close>, \<open>NAME_COL\<close> and \<open>DISPLAY_COLS\<close>; \<open>DF\<close> is \<open>None\<close> until
  the first load.
\<close>

record state =
  DF :: "frame option"
  NAME_COL :: pystr
  DISPLAY_COLS :: "pystr list"

definition name_key :: pystr where
  "name_key = ustr ''_name_key''"

definition name_norm :: pystr where
  "name_norm = ustr ''_name_norm''"

subsection \<open>Loading\<close>

text \<open>
  What a load reads from outside the program: the environment variable \<open>NAME_COL\<close>,
  whether \<open>DATA_PATH\<close> exists, and what \<open>pd.read_csv\<close> gives for the file in each
  encoding (a frame, or the exception it raises).
\<close>

record env =
  FORCE_NAME_COL :: "pystr option"
  path_exists :: bool
  read_csv :: "string \<Rightarrow> error + frame"

text \<open>
  \<^verbatim>\<open>
  def _read_csv_with_fallbacks(path: str) -> pd.DataFrame:
      encs = ["utf-8", "utf-8-sig", "utf-16", "utf-16le", "utf-16be", "cp1252", "latin1"]
      last = None
      for enc in encs:
          try:
              return pd.read_csv(path, dtype=str, encoding=enc, na_filter=False)
          except Exception as e:
              last = e
      raise last
  \<close>
\<close>

definition encs :: "string list" where
  "encs = [''utf-8'', ''utf-8-sig'', ''utf-16'', ''utf-16le'', ''utf-16be'', ''cp1252'', ''latin1'']"

fun read_loop :: "(string \<Rightarrow> error + frame) \<Rightarrow> string list \<Rightarrow> error option \<Rightarrow> error + frame" where
  "read_loop rd [] last_exc = (case last_exc of None \<Rightarrow> Inl TypeError | Some e \<Rightarrow> Inl e)"
| "read_loop rd (enc # es) last_exc =
     (case rd enc of Inr df \<Rightarrow> Inr df | Inl e \<Rightarrow> read_loop rd es (Some e))"

definition read_csv_with_fallbacks :: "env \<Rightarrow> error + frame" where
  "read_csv_with_fallbacks E = read_loop (read_csv E) encs None"

text \<open>
  The choice of the name column in \<open>load_dataset\<close>:
  \<^verbatim>\<open>
  # ---- choose name column explicitly for your schema ----
  if "Full Name (English)" in df.columns:
      name_col = "Full Name (English)"
  elif "Full Name (Marathi)" in df.columns:
      name_col = "Full Name (Marathi)"
  elif "Full Name" in df.columns:
      name_col = "Full Name"
  else:
      name_col = pick_name_column(df)
  \<close>
\<close>

definition choose_name_col :: "pylib \<Rightarrow> env \<Rightarrow> frame \<Rightarrow> error + pystr" where
  "choose_name_col L E df =
     (if ustr ''Full Name (English)'' \<in> set (columns df) then Inr (ustr ''Full Name (English)'')
      else if ustr ''Full Name (Marathi)'' \<in> set (columns df) then Inr (ustr ''Full Name (Marathi)'')
      else if ustr ''Full Name'' \<in> set (columns df) then Inr (ustr ''Full Name'')
      else pick_name_column L (FORCE_NAME_COL E) df)"

text \<open>
  The derived columns:
  \<^verbatim>\<open>
  df[name_col] = df[name_col].astype(str)
  df["_name_key"] = df[name_col].str.strip().str.lower()
  df["_name_norm"] = df[name_col].map(strip_marks)
  \<close>
\<close>

definition exact_key :: "pylib \<Rightarrow> pystr \<Rightarrow> pystr" where
  "exact_key L v = lower L (strip L v)"

definition add_keys :: "pylib \<Rightarrow> frame \<Rightarrow> pystr \<Rightarrow> error + frame" where
  "add_keys L df name_col =
     (case get_col df name_col of
        Inl e \<Rightarrow> Inl e
      | Inr col \<Rightarrow>
          (let df1 = set_item df name_col col in
           case get_col df1 name_col of
             Inl e \<Rightarrow> Inl e
           | Inr col1 \<Rightarrow>
               (let df2 = set_item df1 name_key (map (exact_key L) col1) in
                case get_col df2 name_col of
                  Inl e \<Rightarrow> Inl e
                | Inr col2 \<Rightarrow> Inr (set_item df2 name_norm (map (strip_marks L) col2)))))"

text \<open>
  \<^verbatim>\<open>
  def load_dataset():
      global DF, NAME_COL, DISPLAY_COLS
      if not os.path.exists(DATA_PATH):
          raise FileNotFoundError(f"Backend data.csv not found at {DATA_PATH}")
      df = _read_csv_with_fallbacks(DATA_PATH)
      ...
      DF = df
      NAME_COL = name_col
      DISPLAY_COLS = build_display_cols(DF, NAME_COL)
  \<close>
  The result is the exception raised, if any, and the globals afterwards.
\<close>

definition load_dataset :: "pylib \<Rightarrow> env \<Rightarrow> state \<Rightarrow> (error + unit) \<times> state" where
  "load_dataset L E s =
     (if \<not> path_exists E then (Inl FileNotFoundError, s)
      else
        (case read_csv_with_fallbacks E of
           Inl e \<Rightarrow> (Inl e, s)
         | Inr df \<Rightarrow>
             (case choose_name_col L E df of
                Inl e \<Rightarrow> (Inl e, s)
              | Inr name_col \<Rightarrow>
                  (case add_keys L df name_col of
                     Inl e \<Rightarrow> (Inl e, s)
                   | Inr df' \<Rightarrow>
                       (let s1 = s\<lparr>DF := Some df'\<rparr>;
                            s2 = s1\<lparr>NAME_COL := name_col\<rparr>
                        in case DF s2 of
                             None \<Rightarrow> (Inl TypeError, s2)
                           | Some d \<Rightarrow>
                               (Inr (), s2\<lparr>DISPLAY_COLS := build_display_cols d (NAME_COL s2)\<rparr>))))))"


subsection \<open>The query operations\<close>

text \<open>
  \<^verbatim>\<open>
  return {"name_col": NAME_COL,
          "columns": [c for c in DF.columns if not c.startswith("_")],
          "total_rows": len(DF)}
  \<close>
\<close>

definition meta :: "state \<Rightarrow> error + (pystr \<times> pystr list \<times> nat)" where
  "meta s =
     (case DF s of
        None \<Rightarrow> Inl TypeError
      | Some df \<Rightarrow> Inr (NAME_COL s, filter (\<lambda>c. \<not> internal c) (columns df), nrows df))"

text \<open>
  \<^verbatim>\<open>
  query = strip_marks(q or "")
  if not query:
      names = DF[NAME_COL].astype(str).str.strip()
      names = names[names.ne("")].drop_duplicates().head(limit).tolist()
      return {"options": names}
  mask = DF["_name_norm"].str.contains(query, na=False)
  names = (DF.loc[mask, NAME_COL].astype(str).str.strip()
           .drop_duplicates().head(limit).tolist())
  return {"options": names}
  \<close>
\<close>

definition suggest :: "pylib \<Rightarrow> state \<Rightarrow> pystr \<Rightarrow> int \<Rightarrow> error + pystr list" where
  "suggest L s q limit =
     (case DF s of
        None \<Rightarrow> Inl TypeError
      | Some df \<Rightarrow>
          (let query = strip_marks L q in
           if query = [] then
             (case get_col df (NAME_COL s) of
                Inl e \<Rightarrow> Inl e
              | Inr col \<Rightarrow>
                  Inr (head limit (drop_duplicates (filter (\<lambda>x. x \<noteq> []) (map (strip L) col)))))
           else
             (case get_col df name_norm of
                Inl e \<Rightarrow> Inl e
              | Inr norms \<Rightarrow>
                  (case str_contains L norms query of
                     None \<Rightarrow> Inl ReError
                   | Some msk \<Rightarrow>
                       (case get_col df (NAME_COL s) of
                          Inl e \<Rightarrow> Inl e
                        | Inr col \<Rightarrow>
                            Inr (head limit (drop_duplicates (map (strip L) (select msk col)))))))))"

text \<open>
  \<^verbatim>\<open>
  nm = (name or "").strip()
  if not nm:
      raise HTTPException(400, "Missing name")
  key = nm.lower()
  exact = DF[DF["_name_key"] == key]
  if exact.empty:
      exact = DF[DF[NAME_COL].astype(str).str.strip().str.lower().str.contains(key, na=False)]
  rows = [{k: v for k, v in row.items() if not str(k).startswith("_")}
          for _, row in exact.iterrows()]
  return {"count": len(rows), "rows": rows}
  \<close>
\<close>

definition public_row :: "(pystr \<times> pystr) list \<Rightarrow> (pystr \<times> pystr) list" where
  "public_row row = filter (\<lambda>(k, v). \<not> internal k) row"

definition lookup ::
  "pylib \<Rightarrow> state \<Rightarrow> pystr \<Rightarrow> error + (nat \<times> (pystr \<times> pystr) list list)" where
  "lookup L s name =
     (let nm = strip L name in
      if nm = [] then Inl (HTTPException 400)
      else
        (case DF s of
           None \<Rightarrow> Inl TypeError
         | Some df \<Rightarrow>
             (let key = lower L nm in
              case get_col df name_key of
                Inl e \<Rightarrow> Inl e
              | Inr keys \<Rightarrow>
                  (let exact = select_rows (map (\<lambda>k. k = key) keys) df in
                   case (if empty_frame exact then
                           (case get_col df (NAME_COL s) of
                              Inl e \<Rightarrow> Inl e
                            | Inr col \<Rightarrow>
                                (case str_contains L (map (exact_key L) col) key of
                                   None \<Rightarrow> Inl ReError
                                 | Some msk \<Rightarrow> Inr (select_rows msk df)))
                         else Inr exact) of
                     Inl e \<Rightarrow> Inl e
                   | Inr found \<Rightarrow>
                       (let rows = map public_row (iterrows found)
                        in Inr (length rows, rows))))))"

section \<open>The store with object identities\<close>

text \<open>
  A pandas frame or series is a mutable object, and the global \<open>DF\<close> is a reference
  to one: a handler that wrote to the frame it reads, or assigned a global, would change
  what every later request sees. Here every object has an address in a heap, the global
  \<open>DF\<close> holds an address or \<open>None\<close>, and an operation is a function from the world
  before it to its result, or the exception it raises, and the world after it.
\<close>

datatype obj = FrameObj frame | SeriesObj "pystr list" | MaskObj "bool list"

record world =
  g_DF :: "nat option"
  g_NAME_COL :: pystr
  g_DISPLAY_COLS :: "pystr list"
  heap :: "obj list"

type_synonym 'a prog = "world \<Rightarrow> (error + 'a) \<times> world"

text \<open>
  Returning, raising, and one operation after another: an exception ends the sequence
  and keeps the world reached.
\<close>

definition ret :: "'a \<Rightarrow> 'a prog" where
  "ret x = (\<lambda>w. (Inr x, w))"

definition raise :: "error \<Rightarrow> 'a prog" where
  "raise e = (\<lambda>w. (Inl e, w))"

definition bind :: "'a prog \<Rightarrow> ('a \<Rightarrow> 'b prog) \<Rightarrow> 'b prog" where
  "bind m f = (\<lambda>w. case m w of (Inl e, w') \<Rightarrow> (Inl e, w') | (Inr x, w') \<Rightarrow> f x w')"

text \<open>
  A new object gets the next address. Using an address as a frame, a series or a
  boolean series raises when the object there is of another kind.
\<close>

definition new :: "obj \<Rightarrow> nat prog" where
  "new ob = (\<lambda>w. (Inr (length (heap w)), w\<lparr>heap := heap w @ [ob]\<rparr>))"

definition deref :: "nat \<Rightarrow> obj prog" where
  "deref a = (\<lambda>w. if a < length (heap w) then (Inr (heap w ! a), w) else (Inl TypeError, w))"

definition frame_at :: "nat \<Rightarrow> frame prog" where
  "frame_at a = bind (deref a) (\<lambda>ob. case ob of FrameObj df \<Rightarrow> ret df | _ \<Rightarrow> raise TypeError)"

definition series_at :: "nat \<Rightarrow> pystr list prog" where
  "series_at a = bind (deref a) (\<lambda>ob. case ob of SeriesObj cells \<Rightarrow> ret cells | _ \<Rightarrow> raise TypeError)"

definition mask_at :: "nat \<Rightarrow> bool list prog" where
  "mask_at a = bind (deref a) (\<lambda>ob. case ob of MaskObj msk \<Rightarrow> ret msk | _ \<Rightarrow> raise TypeError)"

text \<open>
  Reading the globals; an operation on \<open>DF\<close> while it is \<open>None\<close> raises.
\<close>

definition the_DF :: "nat prog" where
  "the_DF = (\<lambda>w. case g_DF w of None \<Rightarrow> (Inl TypeError, w) | Some a \<Rightarrow> (Inr a, w))"

definition the_NAME_COL :: "pystr prog" where
  "the_NAME_COL = (\<lambda>w. (Inr (g_NAME_COL w), w))"

text \<open>
  \<open>df[c] = ser\<close> writes to the frame at the address: \<open>load_dataset\<close> does it three
  times to the frame it has read, before it assigns the globals. No handler does.
\<close>

definition frame_setitem :: "nat \<Rightarrow> pystr \<Rightarrow> nat \<Rightarrow> unit prog" where
  "frame_setitem a c v =
     bind (frame_at a) (\<lambda>df.
     bind (series_at v) (\<lambda>cells.
       (\<lambda>w. (Inr (), w\<lparr>heap := (heap w)[a := FrameObj (set_item df c cells)]\<rparr>))))"

text \<open>
  The operations of the handlers. Each reads the objects it is given and makes a new
  object for its result: \<open>df[c]\<close>, \<open>df.loc[mask, c]\<close>, \<open>df[mask]\<close>, \<open>df.empty\<close>,
  \<open>df.iterrows()\<close>, \<open>df.columns\<close>, \<open>len(df)\<close>; \<open>ser.astype(str)\<close>,
  \<open>ser.str.strip()\<close>, \<open>ser.str.lower()\<close>, \<open>ser.ne(v)\<close>, \<open>ser == v\<close>,
  \<open>ser.drop_duplicates()\<close>, \<open>ser.head(n)\<close>, \<open>ser[mask]\<close>,
  \<open>ser.str.contains(pat, na=False)\<close> and \<open>ser.tolist()\<close>. None of them writes to an
  object, so it makes no difference whether pandas lets a result share memory with its
  argument.
\<close>

definition frame_getitem :: "nat \<Rightarrow> pystr \<Rightarrow> nat prog" where
  "frame_getitem a c =
     bind (frame_at a) (\<lambda>df.
       case get_col df c of Inl e \<Rightarrow> raise e | Inr cells \<Rightarrow> new (SeriesObj cells))"

definition frame_loc :: "nat \<Rightarrow> nat \<Rightarrow> pystr \<Rightarrow> nat prog" where
  "frame_loc a m c =
     bind (frame_at a) (\<lambda>df.
     bind (mask_at m) (\<lambda>msk.
       case get_col df c of Inl e \<Rightarrow> raise e | Inr cells \<Rightarrow> new (SeriesObj (select msk cells))))"

definition frame_mask :: "nat \<Rightarrow> nat \<Rightarrow> nat prog" where
  "frame_mask a m =
     bind (frame_at a) (\<lambda>df.
     bind (mask_at m) (\<lambda>msk. new (FrameObj (select_rows msk df))))"

definition frame_empty :: "nat \<Rightarrow> bool prog" where
  "frame_empty a = bind (frame_at a) (\<lambda>df. ret (empty_frame df))"

definition frame_iterrows :: "nat \<Rightarrow> (pystr \<times> pystr) list list prog" where
  "frame_iterrows a = bind (frame_at a) (\<lambda>df. ret (iterrows df))"

definition frame_columns :: "nat \<Rightarrow> pystr list prog" where
  "frame_columns a = bind (frame_at a) (\<lambda>df. ret (columns df))"

definition frame_len :: "nat \<Rightarrow> nat prog" where
  "frame_len a = bind (frame_at a) (\<lambda>df. ret (nrows df))"

definition series_new :: "(pystr list \<Rightarrow> obj) \<Rightarrow> nat \<Rightarrow> nat prog" where
  "series_new f a = bind (series_at a) (\<lambda>cells. new (f cells))"

definition astype_str :: "nat \<Rightarrow> nat prog" where
  "astype_str = series_new (\<lambda>cells. SeriesObj cells)"

definition str_strip :: "pylib \<Rightarrow> nat \<Rightarrow> nat prog" where
  "str_strip L = series_new (\<lambda>cells. SeriesObj (map (strip L) cells))"

definition str_lower :: "pylib \<Rightarrow> nat \<Rightarrow> nat prog" where
  "str_lower L = series_new (\<lambda>cells. SeriesObj (map (lower L) cells))"

definition series_ne :: "pystr \<Rightarrow> nat \<Rightarrow> nat prog" where
  "series_ne v = series_new (\<lambda>cells. MaskObj (map (\<lambda>x. x \<noteq> v) cells))"

definition series_eq :: "pystr \<Rightarrow> nat \<Rightarrow> nat prog" where
  "series_eq v = series_new (\<lambda>cells. MaskObj (map (\<lambda>x. x = v) cells))"

definition series_drop_duplicates :: "nat \<Rightarrow> nat prog" where
  "series_drop_duplicates = series_new (\<lambda>cells. SeriesObj (drop_duplicates cells))"

definition series_head :: "int \<Rightarrow> nat \<Rightarrow> nat prog" where
  "series_head n = series_new (\<lambda>cells. SeriesObj (head n cells))"

definition series_mask :: "nat \<Rightarrow> nat \<Rightarrow> nat prog" where
  "series_mask a m =
     bind (series_at a) (\<lambda>cells.
     bind (mask_at m) (\<lambda>msk. new (SeriesObj (select msk cells))))"

definition series_str_contains :: "pylib \<Rightarrow> pystr \<Rightarrow> nat \<Rightarrow> nat prog" where
  "series_str_contains L pat a =
     bind (series_at a) (\<lambda>cells.
       case str_contains L cells pat of None \<Rightarrow> raise ReError | Some msk \<Rightarrow> new (MaskObj msk))"

definition tolist :: "nat \<Rightarrow> pystr list prog" where
  "tolist a = series_at a"

text \<open>
  The three handlers, operation by operation in the order Python evaluates them. The
  handlers are coroutines without an \<open>await\<close>, so each runs to its end before the
  next request is handled.
\<close>

definition meta_h :: "(pystr \<times> pystr list \<times> nat) prog" where
  "meta_h =
     bind the_NAME_COL (\<lambda>name_col.
     bind the_DF (\<lambda>df.
     bind (frame_columns df) (\<lambda>cols.
     bind the_DF (\<lambda>df'.
     bind (frame_len df') (\<lambda>n.
       ret (name_col, filter (\<lambda>c. \<not> internal c) cols, n))))))"

definition suggest_h :: "pylib \<Rightarrow> pystr \<Rightarrow> int \<Rightarrow> pystr list prog" where
  "suggest_h L q limit =
     (let query = strip_marks L q in
      if query = [] then
        bind the_DF (\<lambda>df.
        bind the_NAME_COL (\<lambda>name_col.
        bind (frame_getitem df name_col) (\<lambda>a1.
        bind (astype_str a1) (\<lambda>a2.
        bind (str_strip L a2) (\<lambda>names.
        bind (series_ne [] names) (\<lambda>m.
        bind (series_mask names m) (\<lambda>a3.
        bind (series_drop_duplicates a3) (\<lambda>a4.
        bind (series_head limit a4) (\<lambda>a5.
          tolist a5)))))))))
      else
        bind the_DF (\<lambda>df.
        bind (frame_getitem df name_norm) (\<lambda>norms.
        bind (series_str_contains L query norms) (\<lambda>msk.
        bind the_DF (\<lambda>df'.
        bind the_NAME_COL (\<lambda>name_col.
        bind (frame_loc df' msk name_col) (\<lambda>a1.
        bind (astype_str a1) (\<lambda>a2.
        bind (str_strip L a2) (\<lambda>a3.
        bind (series_drop_duplicates a3) (\<lambda>a4.
        bind (series_head limit a4) (\<lambda>a5.
          tolist a5)))))))))))"

definition lookup_h :: "pylib \<Rightarrow> pystr \<Rightarrow> (nat \<times> (pystr \<times> pystr) list list) prog" where
  "lookup_h L name =
     (let nm = strip L name in
      if nm = [] then raise (HTTPException 400)
      else
        (let key = lower L nm in
         bind the_DF (\<lambda>df.
         bind the_DF (\<lambda>df'.
         bind (frame_getitem df' name_key) (\<lambda>keys.
         bind (series_eq key keys) (\<lambda>m.
         bind (frame_mask df m) (\<lambda>exact.
         bind (frame_empty exact) (\<lambda>e.
         bind (if e then
                 bind the_DF (\<lambda>df2.
                 bind the_DF (\<lambda>df3.
                 bind the_NAME_COL (\<lambda>name_col.
                 bind (frame_getitem df3 name_col) (\<lambda>a1.
                 bind (astype_str a1) (\<lambda>a2.
                 bind (str_strip L a2) (\<lambda>a3.
                 bind (str_lower L a3) (\<lambda>a4.
                 bind (series_str_contains L key a4) (\<lambda>m'.
                   frame_mask df2 m'))))))))
               else ret exact) (\<lambda>found.
         bind (frame_iterrows found) (\<lambda>rs.
           (let rows = map public_row rs in ret (length rows, rows))))))))))))"

text \<open>
  A request, its response, the handling of one request and of a sequence of requests:
  the response to each and the world after it.
\<close>

datatype query = Meta | Suggest pystr int | Lookup pystr

datatype response =
  MetaR "error + (pystr \<times> pystr list \<times> nat)"
  | SuggestR "error + pystr list"
  | LookupR "error + (nat \<times> (pystr \<times> pystr) list list)"

fun handle :: "pylib \<Rightarrow> query \<Rightarrow> world \<Rightarrow> response \<times> world" where
  "handle L Meta w = (case meta_h w of (r, w') \<Rightarrow> (MetaR r, w'))"
| "handle L (Suggest q limit) w = (case suggest_h L q limit w of (r, w') \<Rightarrow> (SuggestR r, w'))"
| "handle L (Lookup name) w = (case lookup_h L name w of (r, w') \<Rightarrow> (LookupR r, w'))"

fun run_queries :: "pylib \<Rightarrow> query list \<Rightarrow> world \<Rightarrow> (response \<times> world) list" where
  "run_queries L [] w = []"
| "run_queries L (q # qs) w =
     (case handle L q w of (r, w') \<Rightarrow> (r, w') # run_queries L qs w')"

text \<open>
  The response of the handlers of section \<open>The dataset store\<close> to a request.
\<close>

fun answer :: "pylib \<Rightarrow> state \<Rightarrow> query \<Rightarrow> response" where
  "answer L s Meta = MetaR (meta s)"
| "answer L s (Suggest q limit) = SuggestR (suggest L s q limit)"
| "answer L s (Lookup name) = LookupR (lookup L s name)"

text \<open>
  The table the global \<open>DF\<close> refers to, and the three globals as the handlers of section
  \<open>The dataset store\<close> see them.
\<close>

definition table :: "world \<Rightarrow> frame option" where
  "table w =
     (case g_DF w of
        None \<Rightarrow> None
      | Some a \<Rightarrow>
          (if a < length (heap w)
           then (case heap w ! a of FrameObj df \<Rightarrow> Some df | _ \<Rightarrow> None)
           else None))"

definition snapshot :: "world \<Rightarrow> state" where
  "snapshot w = \<lparr>DF = table w, NAME_COL = g_NAME_COL w, DISPLAY_COLS = g_DISPLAY_COLS w\<rparr>"

text \<open>
  The global \<open>DF\<close> is \<open>None\<close> or the address of an object. \<open>extends w w'\<close>: the
  globals of \<open>w'\<close> are those of \<open>w\<close>, and every object of \<open>w\<close> is in \<open>w'\<close> at its
  address with its contents; \<open>w'\<close> may have more objects. An operation that only reads
  and allocates extends every world.
\<close>

definition allocated :: "world \<Rightarrow> bool" where
  "allocated w = (case g_DF w of None \<Rightarrow> True | Some a \<Rightarrow> a < length (heap w))"

definition extends :: "world \<Rightarrow> world \<Rightarrow> bool" where
  "extends w w' =
     (g_DF w' = g_DF w \<and> g_NAME_COL w' = g_NAME_COL w \<and> g_DISPLAY_COLS w' = g_DISPLAY_COLS w
      \<and> take (length (heap w)) (heap w') = heap w)"

definition reads :: "'a prog \<Rightarrow> bool" where
  "reads m = (\<forall>w. extends w (snd (m w)))"

text \<open>
  The world of a snapshot, with the table as the only object; and a world with a frame
  and a series.
\<close>

definition world_of :: "state \<Rightarrow> world" where
  "world_of s =
     (case DF s of
        None \<Rightarrow> \<lparr>g_DF = None, g_NAME_COL = NAME_COL s, g_DISPLAY_COLS = DISPLAY_COLS s, heap = []\<rparr>
      | Some df \<Rightarrow> \<lparr>g_DF = Some 0, g_NAME_COL = NAME_COL s, g_DISPLAY_COLS = DISPLAY_COLS s,
                    heap = [FrameObj df]\<rparr>)"

definition world_two :: world where
  "world_two =
     \<lparr>g_DF = Some 0, g_NAME_COL = ustr ''Full Name'', g_DISPLAY_COLS = [ustr ''Full Name''],
      heap = [FrameObj [(ustr ''Full Name'', [ustr ''Ravi''])], SeriesObj [ustr ''Amit'']]\<rparr>"

section \<open>Example data\<close>

text \<open>
  A library context for examples on ASCII data with at most four rows. Its Unicode
  entries and \<open>re_other\<close> are only consulted for non-ASCII code points and for patterns
  outside the two fragments, which the examples do not contain.

  \<open>Series.sample(k, random_state=seed)\<close> takes the first \<open>k\<close> positions of the
  permutation that numpy's \<open>RandomState(seed)\<close> draws; \<open>numpy_permutation\<close> holds these
  permutations for the seeds 0 and 1 and two to four rows. \<open>Series.mean()\<close> adds a short
  series from left to right in float64 and divides by the count.
\<close>

definition numpy_permutation :: "nat \<Rightarrow> nat \<Rightarrow> nat list" where
  "numpy_permutation seed n =
     (if seed = 0 \<and> n = 2 then [1, 0]
      else if seed = 0 \<and> n = 3 then [2, 1, 0]
      else if seed = 0 \<and> n = 4 then [2, 3, 1, 0]
      else if seed = 1 \<and> n = 3 then [0, 2, 1]
      else if seed = 1 \<and> n = 4 then [3, 2, 0, 1]
      else [0..<n])"

definition seq_mean :: "real list \<Rightarrow> real option" where
  "seq_mean xs =
     (if xs = [] then None
      else Some (fl (foldl (\<lambda>acc x. fl (acc + x)) 0 xs / real (length xs))))"

definition lib0 :: pylib where
  "lib0 = \<lparr>u_decomp = (\<lambda>c. [c]), u_ccc = (\<lambda>c. 0), u_Mn = (\<lambda>c. False), u_lower = (\<lambda>c. [c]),
      u_final_sigma = (\<lambda>s i. False), u_space = (\<lambda>c. False), u_alpha = (\<lambda>c. False),
      u_digit = (\<lambda>c. False), re_other = (\<lambda>pat. None),
      sample_idx = (\<lambda>seed n k. take k (numpy_permutation seed n)), f_mean = seq_mean\<rparr>"

text \<open>The globals before the first load, a missing file, and a file no encoding reads.\<close>

definition st_init :: state where
  "st_init = \<lparr>DF = None, NAME_COL = [], DISPLAY_COLS = []\<rparr>"



text \<open>
  Two small frames and an environment in which the override \<open>NAME_COL\<close> is \<open>X\<close>.
\<close>

definition df_named :: frame where
  "df_named = [(ustr ''Name'', [ustr ''Ravi'', ustr ''Asha'']), (ustr ''X'', [ustr ''a'', ustr ''b''])]"

definition df_schema :: frame where
  "df_schema = [(ustr ''Full Name (English)'', [ustr ''Ravi'', ustr ''Asha'']),
                (ustr ''X'', [ustr ''a'', ustr ''b''])]"

definition env_force_X :: env where
  "env_force_X = \<lparr>FORCE_NAME_COL = Some (ustr ''X''), path_exists = True,
      read_csv = (\<lambda>enc. Inr df_schema)\<rparr>"

section \<open>Ready snapshots\<close>

text \<open>
  A Ready snapshot is what a successful load leaves in the globals: a frame with
  distinct non-empty labels and columns of one length, a name column among them, and
  the two derived columns computed from it.
\<close>

definition ready :: "pylib \<Rightarrow> state \<Rightarrow> bool" where
  "ready L s =
     (case DF s of
        None \<Rightarrow> False
      | Some df \<Rightarrow>
          wf_frame df \<and>
          (case get_col df (NAME_COL s) of
             Inl e \<Rightarrow> False
           | Inr names \<Rightarrow>
               get_col df name_key = Inr (map (exact_key L) names)
               \<and> get_col df name_norm = Inr (map (strip_marks L) names)))"

text \<open>The cells of the name column in row order, the rows, and the name of a row.\<close>

definition names_of :: "state \<Rightarrow> pystr list" where
  "names_of s =
     (case DF s of
        None \<Rightarrow> []
      | Some df \<Rightarrow> (case get_col df (NAME_COL s) of Inl e \<Rightarrow> [] | Inr names \<Rightarrow> names))"

definition rows_of :: "state \<Rightarrow> (pystr \<times> pystr) list list" where
  "rows_of s = (case DF s of None \<Rightarrow> [] | Some df \<Rightarrow> iterrows df)"

definition row_name :: "state \<Rightarrow> (pystr \<times> pystr) list \<Rightarrow> pystr" where
  "row_name s row = (case map_of row (NAME_COL s) of None \<Rightarrow> [] | Some v \<Rightarrow> v)"

text \<open>Patterns without special characters.\<close>

definition plain_pattern :: "pystr \<Rightarrow> bool" where
  "plain_pattern pat = list_all (\<lambda>c. \<not> re_special c) pat"

text \<open>A file of four voters, and the globals after loading it.\<close>

definition df_people :: frame where
  "df_people =
     [(ustr ''Voter ID'', [ustr ''AB12345'', ustr ''CD67890'', ustr ''EF24680'', ustr ''GH13579'']),
      (ustr ''Full Name'', [ustr ''Ravi'', ustr ''Ravi Shankar'', ustr ''Amit '', ustr ''Sumit''])]"

definition env_people :: env where
  "env_people = \<lparr>FORCE_NAME_COL = None, path_exists = True, read_csv = (\<lambda>enc. Inr df_people)\<rparr>"

definition st_people :: state where
  "st_people = snd (load_dataset lib0 env_people st_init)"

text \<open>A file whose first column has a label with the marker, chosen by the override.\<close>

definition df_marked :: frame where
  "df_marked = [(ustr ''_id'', [ustr ''x'']), (ustr ''City'', [ustr ''Pune''])]"

definition env_marked :: env where
  "env_marked = \<lparr>FORCE_NAME_COL = Some (ustr ''_id''), path_exists = True,
      read_csv = (\<lambda>enc. Inr df_marked)\<rparr>"

section \<open>Identifier-like columns, in the words of the specification\<close>

text \<open>
  What is assumed of the library: \<open>sample(k)\<close> draws \<open>k\<close> positions of the series; the
  mean of a series is NaN exactly when the series is empty, and the mean of numbers
  that are not negative is not negative.
\<close>

definition sampler_ok :: "pylib \<Rightarrow> bool" where
  "sampler_ok L =
     (\<forall>seed n k. k \<le> n \<longrightarrow>
        length (sample_idx L seed n k) = k \<and> list_all (\<lambda>i. i < n) (sample_idx L seed n k))"

definition mean_ok :: "pylib \<Rightarrow> bool" where
  "mean_ok L =
     (f_mean L [] = None
      \<and> (\<forall>xs. xs \<noteq> [] \<longrightarrow> f_mean L xs \<noteq> None)
      \<and> (\<forall>xs v. f_mean L xs = Some v \<and> list_all (\<lambda>x. 0 \<le> x) xs \<longrightarrow> 0 \<le> v))"

text \<open>
  The specification's "identifier-like". A cell matches the pattern when it is two to
  four uppercase letters followed by five to eight digits. The digit ratio of a cell is
  the number of its digit characters over the number of its characters, white space at
  both ends set aside, as a float; it is 0 when nothing is left. A column is
  identifier-like when the mean of the matches over all its cells is at least 0.5, or
  the mean of the digit ratios over the sample of at most 300 cells is; both means are
  the library's float64 means.
\<close>

definition id_pattern :: "pystr \<Rightarrow> bool" where
  "id_pattern x =
     (\<exists>a d. x = a @ d \<and> 2 \<le> length a \<and> length a \<le> 4 \<and> 5 \<le> length d \<and> length d \<le> 8
        \<and> (\<forall>c\<in>set a. 65 \<le> c \<and> c \<le> 90) \<and> (\<forall>c\<in>set d. 48 \<le> c \<and> c \<le> 57))"

definition digit_share :: "pylib \<Rightarrow> pystr \<Rightarrow> real" where
  "digit_share L x =
     (if strip L x = [] then 0
      else fl (real (length (filter (isdigit L) (strip L x))) / real (length (strip L x))))"

definition looksLikeIdentifier_spec :: "pylib \<Rightarrow> pystr list \<Rightarrow> bool" where
  "looksLikeIdentifier_spec L s =
     (nan_ge (f_mean L (map (\<lambda>x. if id_pattern x then 1 else 0) s)) (1 / 2)
      \<or> nan_ge (f_mean L (map (digit_share L) (sample L (min (length s) 300) 0 s))) (1 / 2))"

text \<open>
  No hint for the name column: no override that names a column, none of the three
  schema labels, and no label that equals an entry of the priority list after
  lowercasing.
\<close>

definition no_hint :: "pylib \<Rightarrow> env \<Rightarrow> frame \<Rightarrow> bool" where
  "no_hint L E df =
     (force_col (FORCE_NAME_COL E) df = None
      \<and> ustr ''Full Name (English)'' \<notin> set (columns df)
      \<and> ustr ''Full Name (Marathi)'' \<notin> set (columns df)
      \<and> ustr ''Full Name'' \<notin> set (columns df)
      \<and> list_all (\<lambda>cand. lower L cand \<notin> lower L ` set (columns df)) PREFERRED_NAME_COLUMNS)"

text \<open>A file with a column of voter card numbers and a column of names.\<close>

definition df_ids :: frame where
  "df_ids =
     [(ustr ''Card'', [ustr ''AB12345'', ustr ''CD67890'']),
      (ustr ''Person'', [ustr ''Ravi'', ustr ''Asha''])]"

definition env_plain :: env where
  "env_plain = \<lparr>FORCE_NAME_COL = None, path_exists = True, read_csv = (\<lambda>enc. Inr df_ids)\<rparr>"

text \<open>
  A file whose first column has the exact mean digit ratio 1/2 (the cells have the
  ratios 1/3, 1/2 and 2/3), and a second column without digits or letters.
\<close>

definition code_cells :: "pystr list" where
  "code_cells = [ustr ''12abcd'', ustr ''123456abcdef'', ustr ''12a'']"

definition note_cells :: "pystr list" where
  "note_cells = [ustr ''--'', ustr ''--'', ustr ''--'']"

definition df_boundary :: frame where
  "df_boundary = [(ustr ''Code'', code_cells), (ustr ''Note'', note_cells)]"

definition env_boundary :: env where
  "env_boundary = \<lparr>FORCE_NAME_COL = None, path_exists = True, read_csv = (\<lambda>enc. Inr df_boundary)\<rparr>"

section \<open>Plain code points\<close>

text \<open>
  A code point is plain when it is its own compatibility decomposition, has canonical
  combining class 0, is not a non-spacing mark, is not the capital sigma and is its own
  lowercase. Every ASCII code point but the capital letters is plain.
\<close>

definition plain_cp :: "pylib \<Rightarrow> cp \<Rightarrow> bool" where
  "plain_cp L c =
     (decomp_cp L c = [c] \<and> ccc L c = 0 \<and> \<not> is_Mn L c \<and> c \<noteq> 931 \<and> lower_cp L c = [c])"

text \<open>
  A library context with the entries of the Unicode character database for three code
  points: U+1D16D MUSICAL SYMBOL COMBINING AUGMENTATION DOT (category Mc, combining
  class 226), U+1D165 MUSICAL SYMBOL COMBINING STEM (category Mc, class 216) and U+0941
  DEVANAGARI VOWEL SIGN U (category Mn, class 0). None of them has a decomposition or a
  lowercase mapping, none is white space.
\<close>

definition lib_marks :: pylib where
  "lib_marks = lib0\<lparr>u_ccc := (\<lambda>c. if c = 119149 then 226 else if c = 119141 then 216 else 0),
                     u_Mn := (\<lambda>c. c = 2369)\<rparr>"

section \<open>Reloading\<close>






section \<open>Choice of the name column\<close>

lemma map_of_set_item: "map_of (set_item d k v) = (map_of d)(k \<mapsto> v)"
  by (induction d k v rule: set_item.induct) (auto simp: fun_eq_iff)

lemma lower_map_snoc: "lower_map L (cols @ [c]) = set_item (lower_map L cols) (lower L c) c"
  by (simp add: lower_map_def)

lemma map_of_lower_map:
  "map_of (lower_map L cols) k =
     (if k \<in> lower L ` set cols then Some (last (filter (\<lambda>c. lower L c = k) cols)) else None)"
proof (induction cols rule: rev_induct)
  case Nil
  show ?case by (simp add: lower_map_def)
next
  case (snoc c cols)
  show ?case
    by (auto simp: lower_map_snoc map_of_set_item snoc)
qed

lemma first_preferred_find:
  "first_preferred L (lower_map L cols) cands =
     (case List.find (\<lambda>cand. lower L cand \<in> lower L ` set cols) cands of
        None \<Rightarrow> None
      | Some cand \<Rightarrow> Some (last (filter (\<lambda>c. lower L c = lower L cand) cols)))"
  by (induction cands) (simp_all add: map_of_lower_map)

text \<open>
  Claim C1, as amended. \<open>load_dataset\<close> chooses the name column in this order, the
  first match winning: the column \<open>Full Name (English)\<close>, \<open>Full Name (Marathi)\<close> or
  \<open>Full Name\<close> (exact label); otherwise the override, when it is set, not empty and the
  label of a column; otherwise the first entry of the priority list that equals some
  label after lowercasing both, which selects the last column with such a label;
  otherwise the textiness heuristic. So the override column is selected whenever it
  names a column and none of the three schema labels is present.
\<close>

theorem name_column_resolution:
  "choose_name_col L E df =
     (if ustr ''Full Name (English)'' \<in> set (columns df) then Inr (ustr ''Full Name (English)'')
      else if ustr ''Full Name (Marathi)'' \<in> set (columns df) then Inr (ustr ''Full Name (Marathi)'')
      else if ustr ''Full Name'' \<in> set (columns df) then Inr (ustr ''Full Name'')
      else
        (case force_col (FORCE_NAME_COL E) df of
           Some f \<Rightarrow> Inr f
         | None \<Rightarrow>
             (case List.find (\<lambda>cand. lower L cand \<in> lower L ` set (columns df))
                     PREFERRED_NAME_COLUMNS of
                Some cand \<Rightarrow> Inr (last (filter (\<lambda>c. lower L c = lower L cand) (columns df)))
              | None \<Rightarrow> heuristic L df)))
   \<and> (FORCE_NAME_COL E = Some f \<and> f \<noteq> [] \<and> f \<in> set (columns df)
        \<and> ustr ''Full Name (English)'' \<notin> set (columns df)
        \<and> ustr ''Full Name (Marathi)'' \<notin> set (columns df)
        \<and> ustr ''Full Name'' \<notin> set (columns df)
      \<longrightarrow> choose_name_col L E df = Inr f)"
  by (auto simp: choose_name_col_def pick_name_column_def first_preferred_find force_col_def
      split: option.splits)

theorem name_column_resolution_witness:
  "FORCE_NAME_COL env_force_X = Some (ustr ''X'') \<and> ustr ''X'' \<noteq> []
   \<and> ustr ''X'' \<in> set (columns df_named) \<and> ustr ''Name'' \<in> set (columns df_named)
   \<and> ustr ''Name'' \<in> set PREFERRED_NAME_COLUMNS
   \<and> choose_name_col lib0 env_force_X df_named = Inr (ustr ''X'')"
  using name_column_resolution
    [where L = lib0 and E = env_force_X and df = df_named and f = "ustr ''X''", THEN conjunct2]
  by (simp add: env_force_X_def df_named_def columns_def ustr_def PREFERRED_NAME_COLUMNS_def)

text \<open>
  The claim as stated fails: with the override \<open>X\<close> naming a column, a frame that also
  has the column \<open>Full Name (English)\<close> gets that column as its name column.
\<close>

theorem override_not_first_counterexample:
  "FORCE_NAME_COL env_force_X = Some (ustr ''X'') \<and> ustr ''X'' \<in> set (columns df_schema)
   \<and> choose_name_col lib0 env_force_X df_schema = Inr (ustr ''Full Name (English)'')
   \<and> ustr ''Full Name (English)'' \<noteq> ustr ''X''"
  by (simp add: choose_name_col_def env_force_X_def df_schema_def columns_def ustr_def)

section \<open>Evaluating the string functions\<close>

lemma lower_no_sigma: "931 \<notin> set s \<Longrightarrow> lower L s = concat (map (lower_cp L) s)"
proof -
  assume a: "931 \<notin> set s"
  have "map (lower_at L s) [0..<length s] = map (\<lambda>i. lower_cp L (s ! i)) [0..<length s]"
  proof (rule map_cong [OF refl])
    fix i assume "i \<in> set [0..<length s]"
    then have "s ! i \<in> set s" by simp
    with a have "s ! i \<noteq> 931" by metis
    then show "lower_at L s i = lower_cp L (s ! i)" by (simp add: lower_at_def)
  qed
  also have "\<dots> = map (lower_cp L) (map (\<lambda>i. s ! i) [0..<length s])"
    by simp
  also have "\<dots> = map (lower_cp L) s"
    by (simp only: map_nth)
  finally show ?thesis by (simp add: lower_def)
qed

lemmas string_eval =
  exact_key_def strip_marks_def nfkd_def canonical_order_def decomp_cp_def ccc_def is_Mn_def
  lower_no_sigma strip_def isspace_def lower_cp_def ustr_def

lemmas frame_eval =
  columns_def nrows_def get_col_def name_key_def name_norm_def wf_frame_def internal_def
  startswith_def

lemma st_people_eq:
  "st_people =
    \<lparr>DF = Some
       [(ustr ''Voter ID'', [ustr ''AB12345'', ustr ''CD67890'', ustr ''EF24680'', ustr ''GH13579'']),
        (ustr ''Full Name'', [ustr ''Ravi'', ustr ''Ravi Shankar'', ustr ''Amit '', ustr ''Sumit'']),
        (ustr ''_name_key'', [ustr ''ravi'', ustr ''ravi shankar'', ustr ''amit'', ustr ''sumit'']),
        (ustr ''_name_norm'', [ustr ''ravi'', ustr ''ravi shankar'', ustr ''amit'', ustr ''sumit''])],
      NAME_COL = ustr ''Full Name'',
      DISPLAY_COLS = [ustr ''Full Name'', ustr ''Voter ID'']\<rparr>"
  by (simp add: st_people_def load_dataset_def env_people_def st_init_def read_csv_with_fallbacks_def
      encs_def df_people_def choose_name_col_def add_keys_def build_display_cols_def
      DISPLAY_COLS_PREFERENCE_def frame_eval string_eval)

lemma ready_people: "ready lib0 st_people"
  by (simp add: st_people_eq ready_def frame_eval string_eval)

section \<open>Suggestions\<close>

lemma remdups_snoc: "remdups (zs @ [x]) = remdups (filter (\<lambda>y. y \<noteq> x) zs) @ [x]"
  by (induction zs) auto

lemma drop_dups_remdups:
  "drop_dups seen xs = rev (remdups (rev (filter (\<lambda>x. x \<notin> set seen) xs)))"
proof (induction xs arbitrary: seen)
  case Nil
  show ?case by simp
next
  case (Cons x xs)
  show ?case
  proof (cases "x \<in> set seen")
    case True
    then show ?thesis by (simp add: Cons)
  next
    case False
    let ?ys = "filter (\<lambda>y. y \<notin> set seen) xs"
    have f: "filter (\<lambda>y. y \<notin> set (x # seen)) xs = filter (\<lambda>y. y \<noteq> x) ?ys"
      by (induction xs) auto
    have "drop_dups seen (x # xs) = x # rev (remdups (rev (filter (\<lambda>y. y \<noteq> x) ?ys)))"
      using False by (simp only: drop_dups.simps Cons f if_False)
    also have "\<dots> = rev (remdups (filter (\<lambda>y. y \<noteq> x) (rev ?ys)) @ [x])"
      by (simp only: rev_filter rev_append rev.simps append.simps)
    also have "\<dots> = rev (remdups (rev ?ys @ [x]))"
      by (simp only: remdups_snoc)
    also have "\<dots> = rev (remdups (rev (x # ?ys)))"
      by simp
    also have "x # ?ys = filter (\<lambda>y. y \<notin> set seen) (x # xs)"
      using False by simp
    finally show ?thesis .
  qed
qed

lemma drop_duplicates_remdups: "drop_duplicates xs = rev (remdups (rev xs))"
  by (simp add: drop_duplicates_def drop_dups_remdups)

lemma distinct_drop_duplicates: "distinct (drop_duplicates xs)"
  by (simp add: drop_duplicates_remdups)

lemma ready_cols:
  assumes "ready L s"
  obtains df where "DF s = Some df" "wf_frame df" "get_col df (NAME_COL s) = Inr (names_of s)"
    "get_col df name_key = Inr (map (exact_key L) (names_of s))"
    "get_col df name_norm = Inr (map (strip_marks L) (names_of s))"
  using assms by (auto simp: ready_def names_of_def split: option.splits sum.splits)

text \<open>
  Claim C8, as amended. On a Ready snapshot, a query that is empty after normalization
  gets, of the name column's trimmed, non-empty values in row order with later
  duplicates dropped (\<open>remdups\<close> keeps last occurrences, so it is applied to the
  reversed list), the first \<open>limit\<close> when the limit is at least 0, and all but the last
  \<open>- limit\<close> when the limit is negative.
\<close>

theorem suggest_empty_query:
  assumes "ready L s" and "strip_marks L q = []"
  shows "suggest L s q limit =
           Inr (let names = rev (remdups (rev (filter (\<lambda>x. x \<noteq> []) (map (strip L) (names_of s)))))
                in if 0 \<le> limit then take (nat limit) names
                   else take (length names - nat (- limit)) names)"
proof -
  from assms(1) obtain df where "DF s = Some df" "get_col df (NAME_COL s) = Inr (names_of s)"
    by (rule ready_cols)
  with assms(2) show ?thesis
    by (simp add: suggest_def head_def drop_duplicates_remdups Let_def)
qed

lemma people_names:
  "names_of st_people = [ustr ''Ravi'', ustr ''Ravi Shankar'', ustr ''Amit '', ustr ''Sumit'']"
  by (simp add: names_of_def st_people_eq frame_eval ustr_def)

theorem suggest_empty_query_witness:
  "ready lib0 st_people \<and> strip_marks lib0 (ustr ''  '') = []
   \<and> suggest lib0 st_people (ustr ''  '') 3 = Inr [ustr ''Ravi'', ustr ''Ravi Shankar'', ustr ''Amit'']"
  using suggest_empty_query [of lib0 st_people "ustr ''  ''" 3] ready_people
  by (simp add: people_names string_eval)

text \<open>
  The claim as stated fails for a negative limit: the name column has four distinct
  values, and the limit \<open>-1\<close> gets the first three of them, not the first \<open>limit\<close>.
\<close>

theorem suggest_negative_limit_counterexample:
  "ready lib0 st_people \<and> strip_marks lib0 [] = []
   \<and> names_of st_people = [ustr ''Ravi'', ustr ''Ravi Shankar'', ustr ''Amit '', ustr ''Sumit'']
   \<and> suggest lib0 st_people [] (- 1) = Inr [ustr ''Ravi'', ustr ''Ravi Shankar'', ustr ''Amit'']
   \<and> suggest lib0 st_people [] (- 1)
       \<noteq> Inr (take (nat (- 1)) [ustr ''Ravi'', ustr ''Ravi Shankar'', ustr ''Amit'', ustr ''Sumit''])"
proof -
  have n: "strip_marks lib0 [] = []"
    by (simp add: string_eval)
  have "suggest lib0 st_people [] (- 1) = Inr [ustr ''Ravi'', ustr ''Ravi Shankar'', ustr ''Amit'']"
    by (simp add: suggest_def st_people_eq frame_eval drop_duplicates_def head_def string_eval)
  with n people_names ready_people show ?thesis by simp
qed

lemma match_here_prefix: "46 \<notin> set pat \<Longrightarrow> match_here pat s = prefix pat s"
  by (induction pat s rule: match_here.induct) auto

lemma search_dots_sublist: "46 \<notin> set pat \<Longrightarrow> search_dots pat s = sublist pat s"
proof (induction s)
  case Nil
  then show ?case by (simp add: match_here_prefix)
next
  case (Cons c cs)
  then show ?case by (simp add: match_here_prefix sublist_Cons_right)
qed

lemma plain_no_dot: "plain_pattern pat \<Longrightarrow> 46 \<notin> set pat"
  by (auto simp: plain_pattern_def list_all_iff re_special_def)

lemma re_compile_plain: "plain_pattern pat \<Longrightarrow> re_compile L pat = Some (search_dots pat)"
  by (auto simp: plain_pattern_def re_compile_def list_all_iff)

lemma str_contains_plain:
  "plain_pattern pat \<Longrightarrow> str_contains L ser pat = Some (map (sublist pat) ser)"
  using search_dots_sublist [OF plain_no_dot, of pat]
  by (simp add: str_contains_def re_compile_plain)

lemma select_map: "select (map P xs) xs = filter P xs"
  by (induction xs) (simp_all add: select_def)

text \<open>
  For a query whose normalized form is not empty and has none of the special characters
  of regular expressions, the pattern is a literal: \<open>suggest\<close> returns \<open>head(limit)\<close> of
  the distinct trimmed names, in row order, of exactly the rows whose normalized name
  contains the normalized query as a contiguous substring.
\<close>

lemma suggest_plain_query:
  assumes "ready L s" and "strip_marks L q \<noteq> []" and "plain_pattern (strip_marks L q)"
  shows "suggest L s q limit =
           Inr (head limit (drop_duplicates (map (strip L)
                  (filter (\<lambda>v. sublist (strip_marks L q) (strip_marks L v)) (names_of s)))))"
proof -
  from assms(1) obtain df where "DF s = Some df" "get_col df (NAME_COL s) = Inr (names_of s)"
    "get_col df name_norm = Inr (map (strip_marks L) (names_of s))"
    by (rule ready_cols)
  with assms(2,3) show ?thesis
    by (simp add: suggest_def str_contains_plain select_map comp_def)
qed

lemma suggest_plain_query_people:
  "suggest lib0 st_people (ustr ''MIT'') 100 = Inr [ustr ''Amit'', ustr ''Sumit'']"
proof -
  have n: "strip_marks lib0 (ustr ''MIT'') = ustr ''mit''"
    by (simp add: string_eval)
  have p: "plain_pattern (ustr ''mit'')"
    by (simp add: plain_pattern_def re_special_def ustr_def)
  show ?thesis
    using suggest_plain_query [of lib0 st_people "ustr ''MIT''" 100] ready_people p
    by (simp add: n people_names drop_duplicates_def head_def string_eval sublist_code)
qed

text \<open>
  Claim C2: \<open>suggest\<close> returns the names of exactly the rows whose normalized name
  contains the normalized query as a literal substring. The code does not do this for
  the query \<open>.\<close> on a Ready snapshot of four names: the query is its own normalized
  form, no normalized name contains a dot, and every name is returned, because
  \<open>Series.str.contains\<close> reads its argument as a regular expression and \<open>suggest\<close>
  passes the query as it is.
\<close>

theorem suggest_dot_query:
  "ready lib0 st_people \<and> strip_marks lib0 (ustr ''.'') = ustr ''.''
   \<and> suggest lib0 st_people (ustr ''.'') 100
       = Inr [ustr ''Ravi'', ustr ''Ravi Shankar'', ustr ''Amit'', ustr ''Sumit'']
   \<and> filter (\<lambda>v. sublist (strip_marks lib0 (ustr ''.'')) (strip_marks lib0 v)) (names_of st_people) = []"
proof -
  have n: "strip_marks lib0 (ustr ''.'') = ustr ''.''"
    by (simp add: string_eval)
  have "suggest lib0 st_people (ustr ''.'') 100
       = Inr [ustr ''Ravi'', ustr ''Ravi Shankar'', ustr ''Amit'', ustr ''Sumit'']"
    by (simp add: suggest_def st_people_eq frame_eval str_contains_def re_compile_def
        re_special_def select_def drop_duplicates_def head_def string_eval)
  moreover have "filter (\<lambda>v. sublist (strip_marks lib0 (ustr ''.'')) (strip_marks lib0 v)) (names_of st_people) = []"
    by (simp add: people_names string_eval sublist_code)
  ultimately show ?thesis using n ready_people by simp
qed

section \<open>Lookup\<close>

lemma zip_nth: "length xs = length ys \<Longrightarrow> zip xs ys = map (\<lambda>i. (xs ! i, ys ! i)) [0..<length xs]"
  by (rule nth_equalityI) simp_all

lemma select_nth:
  assumes "length msk = length xs"
  shows "select msk xs = map ((!) xs) (filter ((!) msk) [0..<length xs])"
proof -
  have "select msk xs = map fst (filter snd (map (\<lambda>i. (xs ! i, msk ! i)) [0..<length xs]))"
    using assms by (simp add: select_def zip_nth)
  also have "\<dots> = map ((!) xs) (filter ((!) msk) [0..<length xs])"
    by (simp add: filter_map comp_def)
  finally show ?thesis .
qed

lemma wf_frame_length: "wf_frame df \<Longrightarrow> (c, cells) \<in> set df \<Longrightarrow> length cells = nrows df"
  by (auto simp: wf_frame_def list_all_iff)

lemma nrows_select_rows:
  assumes "wf_frame df" and "length msk = nrows df"
  shows "nrows (select_rows msk df) = length (filter ((!) msk) [0..<nrows df])"
proof (cases df)
  case Nil
  then show ?thesis by (simp add: select_rows_def nrows_def)
next
  case (Cons p rest)
  obtain c cells where p: "p = (c, cells)" by (cases p)
  with Cons assms(1) have "length cells = nrows df"
    by (auto intro: wf_frame_length)
  with assms(2) have "select msk cells = map ((!) cells) (filter ((!) msk) [0..<nrows df])"
    by (simp add: select_nth)
  then show ?thesis
    using Cons p by (simp add: select_rows_def nrows_def)
qed

lemma iterrows_select_rows:
  assumes "wf_frame df" and "length msk = nrows df"
  shows "iterrows (select_rows msk df) = map (row_at df) (filter ((!) msk) [0..<nrows df])"
proof -
  let ?idx = "filter ((!) msk) [0..<nrows df]"
  have row: "row_at (select_rows msk df) j = row_at df (?idx ! j)" if "j < length ?idx" for j
  proof -
    have "select msk cells ! j = cells ! (?idx ! j)" if "(c, cells) \<in> set df" for c cells
    proof -
      from that assms(1) have "length cells = nrows df" by (rule wf_frame_length [rotated])
      with assms(2) have "select msk cells = map ((!) cells) ?idx"
        by (simp add: select_nth)
      with \<open>j < length ?idx\<close> show ?thesis by simp
    qed
    then show ?thesis
      by (auto simp: row_at_def select_rows_def)
  qed
  have "iterrows (select_rows msk df) = map (\<lambda>j. row_at df (?idx ! j)) [0..<length ?idx]"
    using row by (simp add: iterrows_def nrows_select_rows [OF assms])
  also have "\<dots> = map (row_at df) (map ((!) ?idx) [0..<length ?idx])"
    by simp
  also have "\<dots> = map (row_at df) ?idx"
    by (simp only: map_nth)
  finally show ?thesis .
qed

lemma map_of_row_at:
  "get_col df c = Inr cells \<Longrightarrow> map_of (row_at df i) c = Some (cells ! i)"
proof -
  assume "get_col df c = Inr cells"
  then have "map_of df c = Some cells"
    by (simp add: get_col_def split: option.splits)
  moreover have "row_at df i = map (\<lambda>(k, v). (k, v ! i)) df"
    by (simp add: row_at_def)
  ultimately show ?thesis
    by (simp add: map_of_map)
qed

lemma get_col_length: "wf_frame df \<Longrightarrow> get_col df c = Inr cells \<Longrightarrow> length cells = nrows df"
  by (auto simp: get_col_def split: option.splits dest: map_of_SomeD intro: wf_frame_length)

text \<open>Selecting the rows by a test on one column is filtering the rows by that test.\<close>

lemma iterrows_select_by_col:
  assumes "wf_frame df" and "get_col df c = Inr cells"
  shows "iterrows (select_rows (map p cells) df)
         = filter (\<lambda>row. p (case map_of row c of None \<Rightarrow> [] | Some v \<Rightarrow> v)) (iterrows df)"
proof -
  from assms have len: "length cells = nrows df" by (rule get_col_length)
  have "filter ((!) (map p cells)) [0..<nrows df] = filter (\<lambda>i. p (cells ! i)) [0..<nrows df]"
    using len by (intro filter_cong) simp_all
  moreover have "filter (\<lambda>row. p (case map_of row c of None \<Rightarrow> [] | Some v \<Rightarrow> v)) (iterrows df)
        = map (row_at df) (filter (\<lambda>i. p (cells ! i)) [0..<nrows df])"
    by (simp add: iterrows_def filter_map comp_def map_of_row_at [OF assms(2)])
  ultimately show ?thesis
    using len by (simp add: iterrows_select_rows [OF assms(1)])
qed

lemma empty_frame_iterrows: "empty_frame df = (iterrows df = [])"
  by (auto simp: empty_frame_def iterrows_def nrows_def)

lemma lookup_exact:
  assumes "ready L s" and "strip L name \<noteq> []"
    and "filter (\<lambda>row. exact_key L (row_name s row) = exact_key L name) (rows_of s) \<noteq> []"
  shows "lookup L s name =
           Inr (length (filter (\<lambda>row. exact_key L (row_name s row) = exact_key L name) (rows_of s)),
                map public_row
                  (filter (\<lambda>row. exact_key L (row_name s row) = exact_key L name) (rows_of s)))"
proof -
  from assms(1) obtain df where df: "DF s = Some df" "wf_frame df"
    "get_col df (NAME_COL s) = Inr (names_of s)"
    "get_col df name_key = Inr (map (exact_key L) (names_of s))"
    by (rule ready_cols)
  let ?key = "exact_key L name"
  have "iterrows (select_rows (map (\<lambda>k. k = ?key) (map (exact_key L) (names_of s))) df)
        = filter (\<lambda>row. exact_key L (row_name s row) = ?key) (rows_of s)"
    using iterrows_select_by_col [OF df(2,3), of "\<lambda>v. exact_key L v = ?key"] df(1)
    by (simp add: rows_of_def row_name_def comp_def)
  then show ?thesis
    using assms(2,3) df(1,3,4)
    by (auto simp: lookup_def Let_def empty_frame_iterrows exact_key_def)
qed

lemma lookup_fallback:
  assumes "ready L s" and "strip L name \<noteq> []"
    and "filter (\<lambda>row. exact_key L (row_name s row) = exact_key L name) (rows_of s) = []"
    and "plain_pattern (exact_key L name)"
  shows "lookup L s name =
           Inr (length (filter (\<lambda>row. sublist (exact_key L name) (exact_key L (row_name s row)))
                          (rows_of s)),
                map public_row
                  (filter (\<lambda>row. sublist (exact_key L name) (exact_key L (row_name s row)))
                     (rows_of s)))"
proof -
  from assms(1) obtain df where df: "DF s = Some df" "wf_frame df"
    "get_col df (NAME_COL s) = Inr (names_of s)"
    "get_col df name_key = Inr (map (exact_key L) (names_of s))"
    by (rule ready_cols)
  let ?key = "exact_key L name"
  have ex: "iterrows (select_rows (map (\<lambda>k. k = ?key) (map (exact_key L) (names_of s))) df)
        = filter (\<lambda>row. exact_key L (row_name s row) = ?key) (rows_of s)"
    using iterrows_select_by_col [OF df(2,3), of "\<lambda>v. exact_key L v = ?key"] df(1)
    by (simp add: rows_of_def row_name_def comp_def)
  have sub: "iterrows (select_rows (map (sublist ?key) (map (exact_key L) (names_of s))) df)
        = filter (\<lambda>row. sublist ?key (exact_key L (row_name s row))) (rows_of s)"
    using iterrows_select_by_col [OF df(2,3), of "\<lambda>v. sublist ?key (exact_key L v)"] df(1)
    by (simp add: rows_of_def row_name_def comp_def)
  show ?thesis
    using assms(2,3,4) df(1,3,4) ex sub
    by (auto simp: lookup_def Let_def empty_frame_iterrows str_contains_plain exact_key_def)
qed

text \<open>
  On a Ready snapshot, for every name that is not blank, with the key the trimmed,
  lowercased name: when some row's trimmed, lowercased name equals the key, \<open>lookup\<close>
  returns exactly these rows (their public columns, in row order) and no row that only
  contains the key; when no row does and the key has none of the special characters of
  regular expressions, it returns exactly the rows whose trimmed, lowercased name
  contains the key as a contiguous substring.
\<close>

lemma lookup_exact_then_substring:
  assumes "ready L s" and "strip L name \<noteq> []"
  shows "(filter (\<lambda>row. exact_key L (row_name s row) = exact_key L name) (rows_of s) \<noteq> [] \<longrightarrow>
            lookup L s name =
              Inr (length (filter (\<lambda>row. exact_key L (row_name s row) = exact_key L name) (rows_of s)),
                   map public_row
                     (filter (\<lambda>row. exact_key L (row_name s row) = exact_key L name) (rows_of s))))
         \<and> (filter (\<lambda>row. exact_key L (row_name s row) = exact_key L name) (rows_of s) = []
              \<and> plain_pattern (exact_key L name) \<longrightarrow>
            lookup L s name =
              Inr (length (filter (\<lambda>row. sublist (exact_key L name) (exact_key L (row_name s row)))
                             (rows_of s)),
                   map public_row
                     (filter (\<lambda>row. sublist (exact_key L name) (exact_key L (row_name s row)))
                        (rows_of s))))"
  using lookup_exact [OF assms] lookup_fallback [OF assms] by blast

lemma people_rows:
  "rows_of st_people =
     [[(ustr ''Voter ID'', ustr ''AB12345''), (ustr ''Full Name'', ustr ''Ravi''),
       (ustr ''_name_key'', ustr ''ravi''), (ustr ''_name_norm'', ustr ''ravi'')],
      [(ustr ''Voter ID'', ustr ''CD67890''), (ustr ''Full Name'', ustr ''Ravi Shankar''),
       (ustr ''_name_key'', ustr ''ravi shankar''), (ustr ''_name_norm'', ustr ''ravi shankar'')],
      [(ustr ''Voter ID'', ustr ''EF24680''), (ustr ''Full Name'', ustr ''Amit ''),
       (ustr ''_name_key'', ustr ''amit''), (ustr ''_name_norm'', ustr ''amit'')],
      [(ustr ''Voter ID'', ustr ''GH13579''), (ustr ''Full Name'', ustr ''Sumit''),
       (ustr ''_name_key'', ustr ''sumit''), (ustr ''_name_norm'', ustr ''sumit'')]]"
  by (simp add: rows_of_def st_people_eq iterrows_def row_at_def nrows_def upt_conv_Cons ustr_def)

lemma people_name_col: "NAME_COL st_people = ustr ''Full Name''"
  by (simp add: st_people_eq)

lemma lookup_exact_then_substring_people:
  "ready lib0 st_people \<and> strip lib0 (ustr '' RAVI'') \<noteq> []
   \<and> lookup lib0 st_people (ustr '' RAVI'')
       = Inr (1, [[(ustr ''Voter ID'', ustr ''AB12345''), (ustr ''Full Name'', ustr ''Ravi'')]])
   \<and> strip lib0 (ustr ''Shankar'') \<noteq> [] \<and> plain_pattern (exact_key lib0 (ustr ''Shankar''))
   \<and> lookup lib0 st_people (ustr ''Shankar'')
       = Inr (1, [[(ustr ''Voter ID'', ustr ''CD67890''), (ustr ''Full Name'', ustr ''Ravi Shankar'')]])"
proof -
  have a: "lookup lib0 st_people (ustr '' RAVI'')
       = Inr (1, [[(ustr ''Voter ID'', ustr ''AB12345''), (ustr ''Full Name'', ustr ''Ravi'')]])"
    using lookup_exact_then_substring [of lib0 st_people "ustr '' RAVI''", THEN conjunct1]
      ready_people
    by (simp add: people_rows people_name_col row_name_def public_row_def internal_def
        startswith_def string_eval)
  have p: "plain_pattern (exact_key lib0 (ustr ''Shankar''))"
    by (simp add: plain_pattern_def re_special_def string_eval)
  have b: "lookup lib0 st_people (ustr ''Shankar'')
       = Inr (1, [[(ustr ''Voter ID'', ustr ''CD67890''), (ustr ''Full Name'', ustr ''Ravi Shankar'')]])"
    using lookup_exact_then_substring [of lib0 st_people "ustr ''Shankar''", THEN conjunct2]
      ready_people p
    by (simp add: people_rows people_name_col row_name_def public_row_def internal_def
        startswith_def string_eval sublist_code)
  from a b p ready_people show ?thesis
    by (simp add: string_eval)
qed

text \<open>
  Claim C3: when no row's key equals the key of the name, \<open>lookup\<close> returns the rows
  whose trimmed, lowercased name contains the key as a substring. The code does not do
  this for the name \<open>Ra.i\<close> on a Ready snapshot of four names: no name equals or
  contains \<open>ra.i\<close>, and two rows are returned, because the fallback passes the key as
  it is to \<open>Series.str.contains\<close>, which reads it as a regular expression, while the
  exact match before it compares the key literally.
\<close>

theorem lookup_dot_name:
  "ready lib0 st_people \<and> strip lib0 (ustr ''Ra.i'') \<noteq> []
   \<and> filter (\<lambda>row. exact_key lib0 (row_name st_people row) = exact_key lib0 (ustr ''Ra.i''))
        (rows_of st_people) = []
   \<and> filter (\<lambda>row. sublist (exact_key lib0 (ustr ''Ra.i'')) (exact_key lib0 (row_name st_people row)))
        (rows_of st_people) = []
   \<and> lookup lib0 st_people (ustr ''Ra.i'')
       = Inr (2, [[(ustr ''Voter ID'', ustr ''AB12345''), (ustr ''Full Name'', ustr ''Ravi'')],
                  [(ustr ''Voter ID'', ustr ''CD67890''), (ustr ''Full Name'', ustr ''Ravi Shankar'')]])"
proof -
  have "lookup lib0 st_people (ustr ''Ra.i'')
       = Inr (2, [[(ustr ''Voter ID'', ustr ''AB12345''), (ustr ''Full Name'', ustr ''Ravi'')],
                  [(ustr ''Voter ID'', ustr ''CD67890''), (ustr ''Full Name'', ustr ''Ravi Shankar'')]])"
    by (simp add: lookup_def st_people_eq frame_eval str_contains_def re_compile_def
        re_special_def select_rows_def select_def empty_frame_def iterrows_def row_at_def
        public_row_def upt_conv_Cons string_eval)
  moreover have "filter (\<lambda>row. exact_key lib0 (row_name st_people row) = exact_key lib0 (ustr ''Ra.i''))
        (rows_of st_people) = []"
    by (simp add: people_rows people_name_col row_name_def string_eval)
  moreover have "filter (\<lambda>row. sublist (exact_key lib0 (ustr ''Ra.i'')) (exact_key lib0 (row_name st_people row)))
        (rows_of st_people) = []"
    by (simp add: people_rows people_name_col row_name_def string_eval sublist_code)
  ultimately show ?thesis
    using ready_people by (simp add: string_eval)
qed

section \<open>Failures of the requests\<close>

lemma lookup_400_iff:
  assumes "ready L s"
  shows "(lookup L s name = Inl (HTTPException 400)) = (strip L name = [])"
proof -
  from assms obtain df where df: "DF s = Some df"
    "get_col df (NAME_COL s) = Inr (names_of s)"
    "get_col df name_key = Inr (map (exact_key L) (names_of s))"
    by (rule ready_cols)
  then show ?thesis
    by (auto simp: lookup_def Let_def split: option.splits if_splits)
qed

lemma suggest_total:
  assumes "ready L s" and "strip_marks L q = [] \<or> plain_pattern (strip_marks L q)"
  shows "\<exists>r. suggest L s q limit = Inr r"
proof -
  from assms(1) obtain df where "DF s = Some df" "get_col df (NAME_COL s) = Inr (names_of s)"
    "get_col df name_norm = Inr (map (strip_marks L) (names_of s))"
    by (rule ready_cols)
  with assms(2) show ?thesis
    by (auto simp: suggest_def Let_def str_contains_plain)
qed

text \<open>
  On a Ready snapshot, \<open>lookup\<close> fails with the 400 error exactly when the name is
  empty after trimming; for a name that is not, whose key has none of the special
  characters of regular expressions and is contained in no row's trimmed, lowercased
  name, it succeeds with count 0 and no rows. \<open>meta\<close> never fails, and \<open>suggest\<close> does
  not fail for any limit when the normalized query is empty or has no special character.
\<close>

lemma request_failures:
  assumes "ready L s"
  shows "(lookup L s name = Inl (HTTPException 400)) = (strip L name = [])
         \<and> (strip L name \<noteq> [] \<and> plain_pattern (exact_key L name)
              \<and> filter (\<lambda>row. sublist (exact_key L name) (exact_key L (row_name s row)))
                   (rows_of s) = []
            \<longrightarrow> lookup L s name = Inr (0, []))
         \<and> (\<exists>r. meta s = Inr r)
         \<and> (strip_marks L q = [] \<or> plain_pattern (strip_marks L q)
            \<longrightarrow> (\<exists>r. suggest L s q limit = Inr r))"
proof (intro conjI impI)
  show "(lookup L s name = Inl (HTTPException 400)) = (strip L name = [])"
    using assms by (rule lookup_400_iff)
next
  assume a: "strip L name \<noteq> [] \<and> plain_pattern (exact_key L name)
       \<and> filter (\<lambda>row. sublist (exact_key L name) (exact_key L (row_name s row))) (rows_of s) = []"
  then have "filter (\<lambda>row. exact_key L (row_name s row) = exact_key L name) (rows_of s) = []"
    by (auto simp: filter_empty_conv)
  with a show "lookup L s name = Inr (0, [])"
    using lookup_fallback [OF assms, of name] by simp
next
  show "\<exists>r. meta s = Inr r"
    using assms by (auto simp: meta_def ready_def split: option.splits)
next
  assume "strip_marks L q = [] \<or> plain_pattern (strip_marks L q)"
  with assms show "\<exists>r. suggest L s q limit = Inr r"
    by (rule suggest_total)
qed

lemma request_failures_people:
  "ready lib0 st_people
   \<and> lookup lib0 st_people (ustr ''  '') = Inl (HTTPException 400)
   \<and> strip lib0 (ustr ''nonexistent'') \<noteq> []
   \<and> plain_pattern (exact_key lib0 (ustr ''nonexistent''))
   \<and> lookup lib0 st_people (ustr ''nonexistent'') = Inr (0, [])
   \<and> meta st_people = Inr (ustr ''Full Name'', [ustr ''Voter ID'', ustr ''Full Name''], 4)
   \<and> (\<exists>r. suggest lib0 st_people (ustr ''ravi'') 100 = Inr r)"
proof -
  note t = request_failures [OF ready_people]
  have a: "lookup lib0 st_people (ustr ''  '') = Inl (HTTPException 400)"
    using t [of "ustr ''  ''", THEN conjunct1] by (simp add: string_eval)
  have s: "strip lib0 (ustr ''nonexistent'') \<noteq> []"
    by (simp add: string_eval)
  have p: "plain_pattern (exact_key lib0 (ustr ''nonexistent''))"
    by (simp add: plain_pattern_def re_special_def string_eval)
  have b: "lookup lib0 st_people (ustr ''nonexistent'') = Inr (0, [])"
    using t [of "ustr ''nonexistent''", THEN conjunct2, THEN conjunct1] s p
    by (simp add: people_rows people_name_col row_name_def string_eval sublist_code)
  have m: "meta st_people = Inr (ustr ''Full Name'', [ustr ''Voter ID'', ustr ''Full Name''], 4)"
    by (simp add: meta_def st_people_eq frame_eval ustr_def)
  have "plain_pattern (strip_marks lib0 (ustr ''ravi''))"
    by (simp add: plain_pattern_def re_special_def string_eval)
  then have c: "\<exists>r. suggest lib0 st_people (ustr ''ravi'') 100 = Inr r"
    using t [of "[]" "ustr ''ravi''" 100, THEN conjunct2, THEN conjunct2, THEN conjunct2]
    by simp
  from a s p b m c ready_people show ?thesis by simp
qed

text \<open>
  Claim C4: on a Ready snapshot no request fails but \<open>lookup\<close> with a blank name, and
  \<open>lookup\<close> with a name that matches no row returns count 0. The code does not do this
  for the text \<open>(\<close>, which is not a regular expression: \<open>suggest\<close> raises \<open>re.error\<close>,
  and so does \<open>lookup\<close> for this name, which is not blank and matches no row; no
  handler catches the exception. The text reaches \<open>Series.str.contains\<close> as it is.
\<close>

theorem suggest_paren_raises:
  "ready lib0 st_people \<and> suggest lib0 st_people (ustr ''('') 100 = Inl ReError
   \<and> strip lib0 (ustr ''('') \<noteq> []
   \<and> lookup lib0 st_people (ustr ''('') = Inl ReError"
proof -
  have "suggest lib0 st_people (ustr ''('') 100 = Inl ReError"
    by (simp add: suggest_def st_people_eq frame_eval str_contains_def re_compile_def
        re_special_def string_eval)
  moreover have "lookup lib0 st_people (ustr ''('') = Inl ReError"
    by (simp add: lookup_def st_people_eq frame_eval str_contains_def re_compile_def
        re_special_def select_rows_def select_def empty_frame_def string_eval)
  ultimately show ?thesis
    using ready_people by (simp add: string_eval)
qed

section \<open>Frame of the query operations\<close>

text \<open>
  Every operation of the handlers extends the world, and so does every sequence of
  them.
\<close>

lemma extends_refl: "extends w w"
  by (simp add: extends_def)

lemma take_prefix: "take (length xs) ys = xs \<longleftrightarrow> prefix xs ys"
  by (metis append_eq_conv_conj prefix_def)

lemma extends_trans: "extends w w' \<Longrightarrow> extends w' w'' \<Longrightarrow> extends w w''"
  unfolding extends_def take_prefix by (auto intro: prefix_order.trans)

lemma reads_ret: "reads (ret x)"
  by (simp add: reads_def ret_def extends_refl)

lemma reads_raise: "reads (raise e)"
  by (simp add: reads_def raise_def extends_refl)

lemma reads_bind:
  assumes "reads m" and "\<And>x. reads (f x)"
  shows "reads (bind m f)"
  unfolding reads_def
proof
  fix w
  obtain r w' where m: "m w = (r, w')" by (cases "m w")
  from assms(1) m have 1: "extends w w'"
    by (metis reads_def snd_conv)
  show "extends w (snd (bind m f w))"
  proof (cases r)
    case (Inl e)
    with m 1 show ?thesis by (simp add: bind_def)
  next
    case (Inr x)
    from assms(2) have "extends w' (snd (f x w'))"
      by (simp add: reads_def)
    with m 1 Inr show ?thesis
      by (simp add: bind_def extends_trans)
  qed
qed

lemma reads_new: "reads (new ob)"
  by (simp add: reads_def new_def extends_def)

lemma reads_deref: "reads (deref a)"
  by (simp add: reads_def deref_def extends_refl)

lemma reads_the_DF: "reads the_DF"
  by (simp add: reads_def the_DF_def extends_refl split: option.split)

lemma reads_the_NAME_COL: "reads the_NAME_COL"
  by (simp add: reads_def the_NAME_COL_def extends_refl)

lemma reads_frame_at: "reads (frame_at a)"
  unfolding frame_at_def
  by (intro reads_bind reads_deref) (simp add: reads_ret reads_raise split: obj.split)

lemma reads_series_at: "reads (series_at a)"
  unfolding series_at_def
  by (intro reads_bind reads_deref) (simp add: reads_ret reads_raise split: obj.split)

lemma reads_mask_at: "reads (mask_at a)"
  unfolding mask_at_def
  by (intro reads_bind reads_deref) (simp add: reads_ret reads_raise split: obj.split)

lemma reads_series_new: "reads (series_new f a)"
  unfolding series_new_def by (intro reads_bind reads_series_at reads_new)

lemma reads_frame_getitem: "reads (frame_getitem a c)"
  unfolding frame_getitem_def
  by (intro reads_bind reads_frame_at) (simp add: reads_raise reads_new split: sum.split)

lemma reads_frame_loc: "reads (frame_loc a m c)"
  unfolding frame_loc_def
  by (intro reads_bind reads_frame_at reads_mask_at) (simp add: reads_raise reads_new split: sum.split)

lemma reads_frame_mask: "reads (frame_mask a m)"
  unfolding frame_mask_def
  by (intro reads_bind reads_frame_at reads_mask_at reads_new)

lemma reads_frame_empty: "reads (frame_empty a)"
  unfolding frame_empty_def by (intro reads_bind reads_frame_at reads_ret)

lemma reads_frame_iterrows: "reads (frame_iterrows a)"
  unfolding frame_iterrows_def by (intro reads_bind reads_frame_at reads_ret)

lemma reads_frame_columns: "reads (frame_columns a)"
  unfolding frame_columns_def by (intro reads_bind reads_frame_at reads_ret)

lemma reads_frame_len: "reads (frame_len a)"
  unfolding frame_len_def by (intro reads_bind reads_frame_at reads_ret)

lemma reads_series_mask: "reads (series_mask a m)"
  unfolding series_mask_def by (intro reads_bind reads_series_at reads_mask_at reads_new)

lemma reads_series_str_contains: "reads (series_str_contains L pat a)"
  unfolding series_str_contains_def
  by (intro reads_bind reads_series_at) (simp add: reads_raise reads_new split: option.split)

lemmas reads_series =
  reads_series_new [of "\<lambda>cells. SeriesObj cells", folded astype_str_def]
  reads_series_new [of "\<lambda>cells. SeriesObj (map (strip L) cells)", folded str_strip_def]
  reads_series_new [of "\<lambda>cells. SeriesObj (map (lower L) cells)", folded str_lower_def]
  reads_series_new [of "\<lambda>cells. MaskObj (map (\<lambda>x. x \<noteq> v) cells)", folded series_ne_def]
  reads_series_new [of "\<lambda>cells. MaskObj (map (\<lambda>x. x = v) cells)", folded series_eq_def]
  reads_series_new [of "\<lambda>cells. SeriesObj (drop_duplicates cells)", folded series_drop_duplicates_def]
  reads_series_new [of "\<lambda>cells. SeriesObj (head n cells)", folded series_head_def]
  reads_series_at [folded tolist_def]
  for L v n

lemma reads_if: "reads m1 \<Longrightarrow> reads m2 \<Longrightarrow> reads (if e then m1 else m2)"
  by simp

lemmas reads_intros =
  reads_if reads_bind reads_ret reads_raise reads_the_DF reads_the_NAME_COL reads_frame_getitem
  reads_frame_loc reads_frame_mask reads_frame_empty reads_frame_iterrows reads_frame_columns
  reads_frame_len reads_series_mask reads_series_str_contains reads_series

lemma reads_meta_h: "reads meta_h"
  unfolding meta_h_def by (intro reads_intros)

lemma reads_suggest_h: "reads (suggest_h L q limit)"
  unfolding suggest_h_def Let_def by (intro reads_intros)

lemma reads_lookup_h: "reads (lookup_h L name)"
  unfolding lookup_h_def Let_def by (intro reads_intros)

lemma extends_handle: "extends w (snd (handle L q w))"
proof (cases q)
  case Meta
  then show ?thesis using reads_meta_h by (simp add: reads_def split_beta)
next
  case (Suggest q' limit)
  then show ?thesis using reads_suggest_h [of L q' limit] by (simp add: reads_def split_beta)
next
  case (Lookup name)
  then show ?thesis using reads_lookup_h [of L name] by (simp add: reads_def split_beta)
qed

lemma extends_run_queries:
  "list_all (\<lambda>(r, w'). extends w w') (run_queries L qs w)"
proof (induction qs arbitrary: w)
  case Nil
  show ?case by simp
next
  case (Cons q qs)
  obtain r w1 where h: "handle L q w = (r, w1)" by (cases "handle L q w")
  with extends_handle [of w L q] have 1: "extends w w1" by simp
  have "list_all (\<lambda>(r, w'). extends w1 w') (run_queries L qs w1)" by (rule Cons.IH)
  then have "list_all (\<lambda>(r, w'). extends w w') (run_queries L qs w1)"
    using 1 by (auto simp: list_all_iff intro: extends_trans)
  with h 1 show ?case by simp
qed

lemma extends_table: "allocated w \<Longrightarrow> extends w w' \<Longrightarrow> table w' = table w"
proof -
  assume a: "allocated w" and e: "extends w w'"
  show ?thesis
  proof (cases "g_DF w")
    case None
    with e show ?thesis by (simp add: table_def extends_def)
  next
    case (Some x)
    with a have l: "x < length (heap w)" by (simp add: allocated_def)
    from e have t: "take (length (heap w)) (heap w') = heap w" by (simp add: extends_def)
    then have "length (heap w) \<le> length (heap w')"
      by (metis length_take min.cobounded1 min.commute)
    with l have l': "x < length (heap w')" by simp
    from t l have "heap w' ! x = heap w ! x"
      by (metis nth_take)
    with Some l l' e show ?thesis by (simp add: table_def extends_def)
  qed
qed

lemma extends_snapshot: "allocated w \<Longrightarrow> extends w w' \<Longrightarrow> snapshot w' = snapshot w"
  by (simp add: snapshot_def extends_table) (simp add: extends_def)

text \<open>
  Claim C10. The query operations \<open>suggest\<close>, \<open>lookup\<close> and \<open>meta\<close> never change the
  shared state: in every world whose global \<open>DF\<close> is \<open>None\<close> or refers to an object, as
  it does after a load, and for every sequence of requests with any arguments, after
  each request the three globals are what they were, every object that existed is at its
  address with its contents, and so the table, the name column and the display columns
  are the ones before the sequence.
\<close>

theorem queries_leave_state:
  assumes "allocated w"
  shows "list_all (\<lambda>(r, w').
            g_DF w' = g_DF w \<and> g_NAME_COL w' = g_NAME_COL w
            \<and> g_DISPLAY_COLS w' = g_DISPLAY_COLS w
            \<and> take (length (heap w)) (heap w') = heap w
            \<and> snapshot w' = snapshot w)
          (run_queries L qs w)"
proof -
  have "g_DF w' = g_DF w \<and> g_NAME_COL w' = g_NAME_COL w
        \<and> g_DISPLAY_COLS w' = g_DISPLAY_COLS w
        \<and> take (length (heap w)) (heap w') = heap w
        \<and> snapshot w' = snapshot w" if "extends w w'" for w'
    using that assms by (simp add: extends_snapshot) (simp add: extends_def)
  with extends_run_queries [of w L qs] show ?thesis
    by (fastforce simp: list_all_iff)
qed

text \<open>
  The handlers of this section give the responses of the handlers of section
  \<open>The dataset store\<close> on the snapshot of the world.
\<close>

lemmas prog_defs =
  ret_def raise_def bind_def new_def deref_def frame_at_def series_at_def mask_at_def
  the_DF_def the_NAME_COL_def frame_getitem_def frame_loc_def frame_mask_def frame_empty_def
  frame_iterrows_def frame_columns_def frame_len_def series_new_def astype_str_def
  str_strip_def str_lower_def series_ne_def series_eq_def series_drop_duplicates_def
  series_head_def series_mask_def series_str_contains_def tolist_def

lemma meta_h_meta: "fst (meta_h w) = meta (snapshot w)"
  by (simp add: meta_h_def meta_def snapshot_def table_def prog_defs
      split: option.split obj.split)

lemma select_ne: "select (map ((\<lambda>x. x \<noteq> v) \<circ> f) xs) (map f xs) = filter (\<lambda>x. x \<noteq> v) (map f xs)"
  using select_map [of "\<lambda>x. x \<noteq> v" "map f xs"] by simp

lemma map_exact_key: "map (exact_key L) xs = map (\<lambda>x. lower L (strip L x)) xs"
  by (simp add: exact_key_def)

lemma suggest_h_suggest: "fst (suggest_h L q limit w) = suggest L (snapshot w) q limit"
  by (simp add: suggest_h_def suggest_def snapshot_def table_def prog_defs Let_def nth_append
      select_ne
      split: option.split obj.split sum.split)

lemma lookup_h_lookup: "fst (lookup_h L name w) = lookup L (snapshot w) name"
  by (simp add: lookup_h_def lookup_def snapshot_def table_def prog_defs Let_def nth_append
      map_exact_key comp_def
      split: option.split obj.split sum.split)

lemma handle_answer: "fst (handle L q w) = answer L (snapshot w) q"
  by (cases q) (simp_all add: split_beta meta_h_meta suggest_h_suggest lookup_h_lookup)

lemma extends_allocated: "allocated w \<Longrightarrow> extends w w' \<Longrightarrow> allocated w'"
proof -
  assume a: "allocated w" and e: "extends w w'"
  from e have "take (length (heap w)) (heap w') = heap w" by (simp add: extends_def)
  then have "length (heap w) \<le> length (heap w')"
    by (metis length_take min.cobounded1 min.commute)
  with a e show ?thesis by (auto simp: allocated_def extends_def split: option.splits)
qed

lemma run_queries_answers:
  "allocated w \<Longrightarrow> map fst (run_queries L qs w) = map (answer L (snapshot w)) qs"
proof (induction qs arbitrary: w)
  case Nil
  show ?case by simp
next
  case (Cons q qs)
  obtain r w1 where h: "handle L q w = (r, w1)" by (cases "handle L q w")
  with extends_handle [of w L q] have e: "extends w w1" by simp
  from h handle_answer [of L q w] have r: "r = answer L (snapshot w) q" by simp
  from Cons.prems e have "allocated w1" "snapshot w1 = snapshot w"
    by (simp_all add: extends_allocated extends_snapshot)
  with Cons.IH [of w1] have "map fst (run_queries L qs w1) = map (answer L (snapshot w)) qs"
    by simp
  with h r show ?case by simp
qed

lemma allocated_world_of: "allocated (world_of s)"
  by (simp add: allocated_def world_of_def split: option.split)

lemma snapshot_world_of: "snapshot (world_of s) = s"
  by (cases s) (simp add: snapshot_def table_def world_of_def split: option.split)

text \<open>
  The frame property belongs to the handlers and not to the store: an assignment to a
  column of the table changes the snapshot.
\<close>

lemma frame_setitem_writes:
  "snapshot (snd (frame_setitem 0 (ustr ''Full Name'') 1 world_two)) \<noteq> snapshot world_two
   \<and> \<not> reads (frame_setitem 0 (ustr ''Full Name'') 1)"
proof -
  have 1: "snd (frame_setitem 0 (ustr ''Full Name'') 1 world_two)
           = world_two\<lparr>heap := [FrameObj [(ustr ''Full Name'', [ustr ''Amit''])], SeriesObj [ustr ''Amit'']]\<rparr>"
    by (simp add: frame_setitem_def world_two_def prog_defs)
  have 2: "ustr ''Ravi'' \<noteq> ustr ''Amit''"
    by (simp add: ustr_def)
  from 2 have 3: "snapshot (snd (frame_setitem 0 (ustr ''Full Name'') 1 world_two)) \<noteq> snapshot world_two"
    unfolding 1 by (simp add: snapshot_def table_def world_two_def)
  have "\<not> extends world_two (snd (frame_setitem 0 (ustr ''Full Name'') 1 world_two))"
    unfolding 1 using 2 by (simp add: extends_def world_two_def)
  then have "\<not> reads (frame_setitem 0 (ustr ''Full Name'') 1)"
    by (auto simp: reads_def)
  with 3 show ?thesis by simp
qed

theorem queries_leave_state_witness:
  "allocated (world_of st_people)
   \<and> list_all (\<lambda>(r, w').
            g_DF w' = g_DF (world_of st_people) \<and> g_NAME_COL w' = g_NAME_COL (world_of st_people)
            \<and> g_DISPLAY_COLS w' = g_DISPLAY_COLS (world_of st_people)
            \<and> take (length (heap (world_of st_people))) (heap w') = heap (world_of st_people)
            \<and> snapshot w' = snapshot (world_of st_people))
          (run_queries lib0 [Suggest (ustr ''mit'') 100, Lookup (ustr ''Ravi''), Meta]
             (world_of st_people))"
proof -
  have a: "allocated (world_of st_people)"
    by (simp add: allocated_def world_of_def split: option.split)
  from a queries_leave_state [OF a, of lib0 "[Suggest (ustr ''mit'') 100, Lookup (ustr ''Ravi''), Meta]"]
  show ?thesis by (intro conjI)
qed

section \<open>Internal columns\<close>

lemma foldl_append_if_inv:
  assumes "\<forall>c\<in>set cols0. R c" and "\<And>cols c. c \<in> set xs \<Longrightarrow> Q cols c \<Longrightarrow> R c"
  shows "\<forall>c\<in>set (foldl (\<lambda>cols c. if Q cols c then cols @ [c] else cols) cols0 xs). R c"
  using assms
proof (induction xs arbitrary: cols0)
  case Nil
  then show ?case by simp
next
  case (Cons a xs)
  have step: "\<forall>c\<in>set (if Q cols0 a then cols0 @ [a] else cols0). R c"
    using Cons.prems by auto
  have "\<forall>c\<in>set (foldl (\<lambda>cols c. if Q cols c then cols @ [c] else cols)
           (if Q cols0 a then cols0 @ [a] else cols0) xs). R c"
    using step Cons.prems(2) by (intro Cons.IH) simp_all
  then show ?case by simp
qed

lemma foldl_append_if_hd:
  "\<exists>rest'. foldl (\<lambda>cols c. if Q cols c then cols @ [c] else cols) (n # rest) xs = n # rest'"
  by (induction xs arbitrary: rest) auto

lemma preference_not_internal: "c \<in> set DISPLAY_COLS_PREFERENCE \<Longrightarrow> \<not> internal c"
  by (auto simp: DISPLAY_COLS_PREFERENCE_def internal_def startswith_def ustr_def)

lemma build_display_cols_internal:
  "\<forall>c\<in>set (build_display_cols df name_col). c = name_col \<or> \<not> internal c"
proof -
  let ?R = "\<lambda>c. c = name_col \<or> \<not> internal c"
  let ?cols1 = "foldl (\<lambda>cols c. if c \<in> set (columns df) \<and> c \<notin> set cols then cols @ [c] else cols)
                    [name_col] DISPLAY_COLS_PREFERENCE"
  have 1: "\<forall>c\<in>set ?cols1. ?R c"
    by (rule foldl_append_if_inv) (auto dest: preference_not_internal)
  have "\<forall>c\<in>set (foldl (\<lambda>cols c. if c \<notin> set cols \<and> \<not> internal c then cols @ [c] else cols)
                    ?cols1 (columns df)). ?R c"
    using 1 by (rule foldl_append_if_inv) auto
  then show ?thesis
    by (simp add: build_display_cols_def)
qed

lemma build_display_cols_first: "\<exists>rest. build_display_cols df name_col = name_col # rest"
proof -
  obtain r1 where "foldl (\<lambda>cols c. if c \<in> set (columns df) \<and> c \<notin> set cols then cols @ [c] else cols)
                    [name_col] DISPLAY_COLS_PREFERENCE = name_col # r1"
    using foldl_append_if_hd [of "\<lambda>cols c. c \<in> set (columns df) \<and> c \<notin> set cols" name_col "[]"]
    by blast
  moreover obtain r2 where "foldl (\<lambda>cols c. if c \<notin> set cols \<and> \<not> internal c then cols @ [c] else cols)
                    (name_col # r1) (columns df) = name_col # r2"
    using foldl_append_if_hd [of "\<lambda>cols c. c \<notin> set cols \<and> \<not> internal c" name_col r1]
    by blast
  ultimately show ?thesis
    by (simp add: build_display_cols_def)
qed

lemma lookup_rows_public:
  "lookup L s name = Inr (cnt, rows) \<Longrightarrow> row \<in> set rows \<Longrightarrow> (k, v) \<in> set row \<Longrightarrow> \<not> internal k"
  by (auto simp: lookup_def Let_def public_row_def split: if_splits option.splits sum.splits)

text \<open>
  Claim C5, as amended. No column whose label starts with the marker \<open>_\<close> is among the
  columns of \<open>meta\<close> or the keys of a row that \<open>lookup\<close> returns. The output of
  \<open>build_display_cols\<close> starts with the name column and has no other column with the
  marker: none at all when the name column's label does not start with it.
\<close>

theorem internal_columns_hidden:
  "(meta s = Inr (n, cols, t) \<longrightarrow> list_all (\<lambda>c. \<not> internal c) cols)
   \<and> (lookup L s name = Inr (cnt, rows) \<longrightarrow>
        list_all (\<lambda>row. list_all (\<lambda>c. \<not> internal c) (map fst row)) rows)
   \<and> list_all (\<lambda>c. c = name_col \<or> \<not> internal c) (build_display_cols df name_col)
   \<and> (\<not> internal name_col \<longrightarrow>
        list_all (\<lambda>c. \<not> internal c) (build_display_cols df name_col))
   \<and> (\<exists>rest. build_display_cols df name_col = name_col # rest)"
proof (intro conjI impI)
  assume "meta s = Inr (n, cols, t)"
  then show "list_all (\<lambda>c. \<not> internal c) cols"
    by (auto simp: meta_def list_all_iff split: option.splits)
next
  assume "lookup L s name = Inr (cnt, rows)"
  then show "list_all (\<lambda>row. list_all (\<lambda>c. \<not> internal c) (map fst row)) rows"
    by (auto simp: list_all_iff dest: lookup_rows_public)
next
  show "list_all (\<lambda>c. c = name_col \<or> \<not> internal c) (build_display_cols df name_col)"
    using build_display_cols_internal [of df name_col] by (simp add: list_all_iff)
next
  assume "\<not> internal name_col"
  then show "list_all (\<lambda>c. \<not> internal c) (build_display_cols df name_col)"
    using build_display_cols_internal [of df name_col] by (auto simp: list_all_iff)
next
  show "\<exists>rest. build_display_cols df name_col = name_col # rest"
    by (rule build_display_cols_first)
qed

lemma people_meta:
  "meta st_people = Inr (ustr ''Full Name'', [ustr ''Voter ID'', ustr ''Full Name''], 4)"
  by (simp add: meta_def st_people_eq frame_eval ustr_def)

lemma people_lookup_amit:
  "lookup lib0 st_people (ustr ''amit'')
     = Inr (1, [[(ustr ''Voter ID'', ustr ''EF24680''), (ustr ''Full Name'', ustr ''Amit '')]])"
  by (simp add: lookup_def st_people_eq frame_eval select_rows_def select_def empty_frame_def
      iterrows_def row_at_def public_row_def upt_conv_Cons string_eval)

theorem internal_columns_hidden_witness:
  "meta st_people = Inr (ustr ''Full Name'', [ustr ''Voter ID'', ustr ''Full Name''], 4)
   \<and> list_all (\<lambda>c. \<not> internal c) [ustr ''Voter ID'', ustr ''Full Name'']
   \<and> lookup lib0 st_people (ustr ''amit'')
       = Inr (1, [[(ustr ''Voter ID'', ustr ''EF24680''), (ustr ''Full Name'', ustr ''Amit '')]])
   \<and> list_all (\<lambda>row. list_all (\<lambda>c. \<not> internal c) (map fst row))
        [[(ustr ''Voter ID'', ustr ''EF24680''), (ustr ''Full Name'', ustr ''Amit '')]]
   \<and> \<not> internal (NAME_COL st_people)
   \<and> list_all (\<lambda>c. \<not> internal c) (build_display_cols df_people (NAME_COL st_people))"
proof -
  note t = internal_columns_hidden [of st_people "ustr ''Full Name''"
      "[ustr ''Voter ID'', ustr ''Full Name'']" 4 lib0 "ustr ''amit''" 1
      "[[(ustr ''Voter ID'', ustr ''EF24680''), (ustr ''Full Name'', ustr ''Amit '')]]"
      "NAME_COL st_people" df_people]
  have n: "\<not> internal (NAME_COL st_people)"
    by (simp add: people_name_col internal_def startswith_def ustr_def)
  from t people_meta people_lookup_amit n show ?thesis
    by blast
qed

text \<open>
  The claim as stated fails when the selected name column starts with the marker: it is
  the first display column.
\<close>

theorem display_cols_marker_counterexample:
  "NAME_COL (snd (load_dataset lib0 env_marked st_init)) = ustr ''_id''
   \<and> DISPLAY_COLS (snd (load_dataset lib0 env_marked st_init)) = [ustr ''_id'', ustr ''City'']
   \<and> build_display_cols df_marked (ustr ''_id'') = [ustr ''_id'', ustr ''City'']
   \<and> internal (ustr ''_id'')"
  by (simp add: load_dataset_def env_marked_def st_init_def read_csv_with_fallbacks_def
      encs_def df_marked_def choose_name_col_def pick_name_column_def force_col_def add_keys_def
      build_display_cols_def DISPLAY_COLS_PREFERENCE_def frame_eval string_eval)

section \<open>Identifier-like columns\<close>

lemma ulp_small_pos: "0 < ulp_small n x"
  by (induction n x rule: ulp_small.induct) simp_all

lemma ulp_big_pos: "0 < ulp_big n x"
  by (induction n x rule: ulp_big.induct) simp_all

lemma ulp_pos: "0 < ulp a"
  by (simp add: ulp_def ulp_small_pos ulp_big_pos)

lemma round_even_nonneg: "0 \<le> y \<Longrightarrow> 0 \<le> round_even y"
proof -
  assume "0 \<le> y"
  then have "0 \<le> \<lfloor>y\<rfloor>" by simp
  then show ?thesis by (simp add: round_even_def Let_def)
qed

lemma fl_nonneg: "0 \<le> x \<Longrightarrow> 0 \<le> fl x"
proof -
  assume x: "0 \<le> x"
  then have "0 \<le> x / ulp x" using ulp_pos [of x] by simp
  then have "0 \<le> round_even (x / ulp x)" by (rule round_even_nonneg)
  with x ulp_pos [of x] show ?thesis by (simp add: fl_def)
qed

lemma truediv_nonneg: "0 \<le> truediv a b"
  by (simp add: truediv_def fl_nonneg)

lemma takeWhile_split:
  assumes "\<forall>c\<in>set a. P c" and "d \<noteq> []" and "\<not> P (hd d)"
  shows "takeWhile P (a @ d) = a" and "dropWhile P (a @ d) = d"
proof -
  from assms(2) obtain h t where d: "d = h # t" by (cases d) auto
  with assms(3) have "\<not> P h" by simp
  with assms(1) d show "takeWhile P (a @ d) = a" and "dropWhile P (a @ d) = d"
    by (simp_all add: takeWhile_append2 dropWhile_append2)
qed

lemma epic_fullmatch_pattern: "epic_fullmatch x = id_pattern x"
proof
  assume "epic_fullmatch x"
  then have "x = takeWhile is_AZ x @ dropWhile is_AZ x
      \<and> 2 \<le> length (takeWhile is_AZ x) \<and> length (takeWhile is_AZ x) \<le> 4
      \<and> 5 \<le> length (dropWhile is_AZ x) \<and> length (dropWhile is_AZ x) \<le> 8
      \<and> (\<forall>c\<in>set (takeWhile is_AZ x). 65 \<le> c \<and> c \<le> 90)
      \<and> (\<forall>c\<in>set (dropWhile is_AZ x). 48 \<le> c \<and> c \<le> 57)"
    by (auto simp: epic_fullmatch_def Let_def list_all_iff is_09_def is_AZ_def
        dest: set_takeWhileD)
  then show "id_pattern x"
    unfolding id_pattern_def by blast
next
  assume "id_pattern x"
  then obtain a d where x: "x = a @ d" and a: "2 \<le> length a" "length a \<le> 4"
    and d: "5 \<le> length d" "length d \<le> 8"
    and az: "\<forall>c\<in>set a. 65 \<le> c \<and> c \<le> 90" and dg: "\<forall>c\<in>set d. 48 \<le> c \<and> c \<le> 57"
    unfolding id_pattern_def by blast
  from d have ne: "d \<noteq> []" by auto
  then have "hd d \<in> set d" by simp
  with dg have "\<not> is_AZ (hd d)" by (auto simp: is_AZ_def)
  moreover from az have "\<forall>c\<in>set a. is_AZ c" by (simp add: is_AZ_def)
  ultimately have "takeWhile is_AZ x = a" "dropWhile is_AZ x = d"
    using ne x takeWhile_split [of a is_AZ d] by simp_all
  with a d dg show "epic_fullmatch x"
    by (simp add: epic_fullmatch_def Let_def list_all_iff is_09_def)
qed

lemma sum_indicator_nat: "sum_list (map (\<lambda>x. if P x then 1 else 0) xs) = length (filter P xs)"
  by (induction xs) simp_all

lemma digit_ratio_share: "digit_ratio L x = digit_share L x"
proof (cases "strip L x = []")
  case True
  then show ?thesis by (simp add: digit_ratio_def digit_share_def)
next
  case False
  then have "max 1 (length (strip L x)) = length (strip L x)"
    by (cases "strip L x") simp_all
  with False show ?thesis
    by (simp add: digit_ratio_def digit_share_def Let_def truediv_def sum_indicator_nat)
qed

lemma is_probably_epic_spec: "is_probably_epic L s = looksLikeIdentifier_spec L s"
proof -
  have "epic_fullmatch = id_pattern"
    by (rule ext) (rule epic_fullmatch_pattern)
  moreover have "digit_ratio L = digit_share L"
    by (rule ext) (rule digit_ratio_share)
  ultimately show ?thesis
    by (simp add: is_probably_epic_def looksLikeIdentifier_spec_def match_rate_def digit_rate_def)
qed

lemma sample_length: "sampler_ok L \<Longrightarrow> k \<le> length ser \<Longrightarrow> length (sample L k seed ser) = k"
  by (simp add: sampler_ok_def sample_def)

lemma alpha_ratio_nonneg: "0 \<le> alpha_ratio L x"
  by (simp add: alpha_ratio_def Let_def truediv_nonneg)

lemma score_nonneg: "mean_ok L \<Longrightarrow> score L ser = Some v \<Longrightarrow> 0 \<le> v"
proof -
  assume ok: "mean_ok L" and a: "score L ser = Some v"
  have "list_all (\<lambda>x. 0 \<le> x) (map (alpha_ratio L) (sample L (min (length ser) 300) 1 ser))"
    by (simp add: list_all_iff alpha_ratio_nonneg)
  with ok a show ?thesis
    unfolding mean_ok_def score_def by blast
qed

lemma score_None: "sampler_ok L \<Longrightarrow> mean_ok L \<Longrightarrow> score L ser = None \<Longrightarrow> ser = []"
proof -
  assume ok: "sampler_ok L" and mk: "mean_ok L" and "score L ser = None"
  then have "map (alpha_ratio L) (sample L (min (length ser) 300) 1 ser) = []"
    unfolding mean_ok_def score_def by blast
  then have "sample L (min (length ser) 300) 1 ser = []" by simp
  moreover have "length (sample L (min (length ser) 300) 1 ser) = min (length ser) 300"
    using ok by (rule sample_length) simp
  ultimately show "ser = []"
    by (simp add: min_def split: if_splits)
qed

lemma not_epic_Nil: "sampler_ok L \<Longrightarrow> mean_ok L \<Longrightarrow> \<not> is_probably_epic L []"
proof -
  assume ok: "sampler_ok L" and mk: "mean_ok L"
  have "sample L 0 0 ([]::pystr list) = []"
    using sample_length [OF ok, of 0 "[]::pystr list" 0] by simp
  with mk show ?thesis
    by (simp add: is_probably_epic_def match_rate_def digit_rate_def mean_ok_def nan_ge_def)
qed

text \<open>The invariant of the loop of the heuristic, after the columns \<open>pre\<close>.\<close>

lemma heuristic_loop_inv:
  assumes "sampler_ok L" and "mean_ok L"
  shows "(case foldl (heuristic_step L) (None, - 1) pre of
            (None, bs) \<Rightarrow> bs = - 1 \<and> (\<forall>(c, ser) \<in> set pre. is_probably_epic L ser \<or> ser = [])
          | (Some b, bs) \<Rightarrow> - 1 \<le> bs \<and> (\<exists>ser. (b, ser) \<in> set pre \<and> \<not> is_probably_epic L ser))"
proof (induction pre rule: rev_induct)
  case Nil
  show ?case by simp
next
  case (snoc p pre)
  obtain c ser where p: "p = (c, ser)" by (cases p)
  obtain best bs where acc: "foldl (heuristic_step L) (None, - 1) pre = (best, bs)"
    by (cases "foldl (heuristic_step L) (None, - 1) pre")
  show ?case
  proof (cases "is_probably_epic L ser")
    case True
    with snoc p acc show ?thesis
      by (cases best) auto
  next
    case False
    show ?thesis
    proof (cases "score L ser")
      case None
      with assms have "ser = []" by (rule score_None)
      with snoc p acc None False show ?thesis
        by (cases best) auto
    next
      case (Some v)
      with assms(2) have "0 \<le> v" by (rule score_nonneg)
      with snoc p acc Some False show ?thesis
        by (cases best) auto
    qed
  qed
qed

lemma heuristic_not_epic:
  assumes ok: "sampler_ok L" and mk: "mean_ok L" and wf: "wf_frame df"
    and ex: "list_ex (\<lambda>(c, ser). \<not> is_probably_epic L ser) df"
  shows "\<exists>c ser. heuristic L df = Inr c \<and> (c, ser) \<in> set df \<and> \<not> is_probably_epic L ser"
proof -
  from ex obtain c0 ser0 where in0: "(c0, ser0) \<in> set df" and ne0: "\<not> is_probably_epic L ser0"
    by (auto simp: list_ex_iff)
  obtain best bs where acc: "foldl (heuristic_step L) (None, - 1) df = (best, bs)"
    by (cases "foldl (heuristic_step L) (None, - 1) df")
  note inv = heuristic_loop_inv [OF ok mk, of df, unfolded acc]
  show ?thesis
  proof (cases best)
    case (Some b)
    with inv obtain ser where b: "(b, ser) \<in> set df" "\<not> is_probably_epic L ser" by auto
    from b(1) wf have "b \<noteq> []"
      by (force simp: wf_frame_def columns_def list_all_iff)
    with Some acc b show ?thesis
      by (auto simp: heuristic_def)
  next
    case None
    with inv in0 ne0 have "ser0 = []" by auto
    with wf in0 have n0: "nrows df = 0"
      using wf_frame_length by fastforce
    from in0 obtain c1 ser1 rest where df: "df = (c1, ser1) # rest"
      by (cases df) auto
    with wf n0 have "ser1 = []"
      by (simp add: nrows_def)
    with ok mk have "\<not> is_probably_epic L ser1" by (simp add: not_epic_Nil)
    with None acc df show ?thesis
      by (auto simp: heuristic_def first_column_def columns_def)
  qed
qed

lemma no_hint_heuristic: "no_hint L E df \<Longrightarrow> choose_name_col L E df = heuristic L df"
proof -
  assume a: "no_hint L E df"
  then have "List.find (\<lambda>cand. lower L cand \<in> lower L ` set (columns df)) PREFERRED_NAME_COLUMNS = None"
    by (auto simp: no_hint_def find_None_iff list_all_iff)
  with a show ?thesis
    by (simp add: no_hint_def choose_name_col_def pick_name_column_def first_preferred_find)
qed

text \<open>
  Claim C6, as amended. With a sampler that draws the number of cells it is asked for
  and a mean that is NaN only for an empty series and not negative for numbers that are
  not negative: a column is classified identifier-like exactly when the float64 mean,
  over all its cells, of "the cell is two to four uppercase letters followed by five to
  eight digits" is at least 0.5, or the float64 mean of the float64 digit ratios of the
  trimmed cells of the sample, of at most 300 cells, is at least 0.5. And when no hint
  selects the name column and some column is not identifier-like, the column selected
  is one that is not identifier-like.
\<close>

theorem identifier_columns_excluded:
  assumes "sampler_ok L" and "mean_ok L"
  shows "is_probably_epic L s = looksLikeIdentifier_spec L s
         \<and> length (sample L (min (length s) 300) 0 s) \<le> 300
         \<and> (wf_frame df \<and> no_hint L E df \<and> list_ex (\<lambda>(c, ser). \<not> is_probably_epic L ser) df
            \<longrightarrow> (\<exists>c ser. choose_name_col L E df = Inr c \<and> (c, ser) \<in> set df
                    \<and> \<not> is_probably_epic L ser))"
proof (intro conjI impI)
  show "is_probably_epic L s = looksLikeIdentifier_spec L s"
    by (rule is_probably_epic_spec)
next
  have "length (sample L (min (length s) 300) 0 s) = min (length s) 300"
    using assms(1) by (rule sample_length) simp
  then show "length (sample L (min (length s) 300) 0 s) \<le> 300" by simp
next
  assume "wf_frame df \<and> no_hint L E df \<and> list_ex (\<lambda>(c, ser). \<not> is_probably_epic L ser) df"
  then show "\<exists>c ser. choose_name_col L E df = Inr c \<and> (c, ser) \<in> set df \<and> \<not> is_probably_epic L ser"
    using heuristic_not_epic [OF assms, of df] by (simp add: no_hint_heuristic)
qed

lemma sampler_ok_lib0: "sampler_ok lib0"
  by (auto simp: sampler_ok_def lib0_def numpy_permutation_def list_all_iff
      dest!: in_set_takeD)

lemma seq_sum_nonneg: "0 \<le> acc \<Longrightarrow> list_all (\<lambda>x. 0 \<le> x) xs \<Longrightarrow> 0 \<le> foldl (\<lambda>acc x. fl (acc + x)) acc xs"
  by (induction xs arbitrary: acc) (simp_all add: fl_nonneg)

lemma mean_ok_lib0: "mean_ok lib0"
  by (auto simp: mean_ok_def lib0_def seq_mean_def fl_nonneg seq_sum_nonneg split: if_splits)


lemma ulp_small_unfold:
  "ulp_small n x = (if n = 0 \<or> 1 \<le> 2 * x then 1 / 2 ^ 53 else ulp_small (n - 1) (2 * x) / 2)"
  by (cases n) simp_all

lemma ulp_big_unfold:
  "ulp_big n x = (if n = 0 \<or> x < 2 then 1 / 2 ^ 52 else 2 * ulp_big (n - 1) (x / 2))"
  by (cases n) simp_all

lemmas float_eval =
  truediv_def fl_def ulp_def ulp_small_unfold ulp_big_unfold round_even_def seq_mean_def Let_def

lemmas classifier_eval =
  is_probably_epic_def match_rate_def digit_rate_def nan_ge_def sample_def
  epic_fullmatch_def is_AZ_def is_09_def digit_ratio_def isdigit_def score_def alpha_ratio_def
  isalpha_def lib0_def numpy_permutation_def

lemma ids_card_epic: "is_probably_epic lib0 [ustr ''AB12345'', ustr ''CD67890'']"
  by (simp add: classifier_eval float_eval string_eval)

lemma ids_person_not_epic: "\<not> is_probably_epic lib0 [ustr ''Ravi'', ustr ''Asha'']"
  by (simp add: classifier_eval float_eval string_eval)

lemma ids_no_hint: "no_hint lib0 env_plain df_ids"
  by (simp add: no_hint_def env_plain_def df_ids_def force_col_def columns_def
      PREFERRED_NAME_COLUMNS_def lower_no_sigma lower_cp_def lib0_def ustr_def)

lemma ids_wf: "wf_frame df_ids"
  by (simp add: df_ids_def frame_eval ustr_def)

theorem identifier_columns_excluded_witness:
  "sampler_ok lib0 \<and> mean_ok lib0 \<and> wf_frame df_ids \<and> no_hint lib0 env_plain df_ids
   \<and> list_ex (\<lambda>(c, ser). \<not> is_probably_epic lib0 ser) df_ids
   \<and> is_probably_epic lib0 [ustr ''AB12345'', ustr ''CD67890'']
   \<and> looksLikeIdentifier_spec lib0 [ustr ''AB12345'', ustr ''CD67890'']
   \<and> (\<exists>c ser. choose_name_col lib0 env_plain df_ids = Inr c \<and> (c, ser) \<in> set df_ids
          \<and> \<not> is_probably_epic lib0 ser)
   \<and> choose_name_col lib0 env_plain df_ids = Inr (ustr ''Person'')"
proof -
  note t = identifier_columns_excluded [OF sampler_ok_lib0 mean_ok_lib0,
      of "[ustr ''AB12345'', ustr ''CD67890'']" df_ids env_plain]
  have ex: "list_ex (\<lambda>(c, ser). \<not> is_probably_epic lib0 ser) df_ids"
    using ids_person_not_epic by (simp add: df_ids_def)
  have spec: "looksLikeIdentifier_spec lib0 [ustr ''AB12345'', ustr ''CD67890'']"
    using t ids_card_epic by simp
  have some: "\<exists>c ser. choose_name_col lib0 env_plain df_ids = Inr c \<and> (c, ser) \<in> set df_ids
          \<and> \<not> is_probably_epic lib0 ser"
    using t ids_wf ids_no_hint ex by blast
  then have "choose_name_col lib0 env_plain df_ids = Inr (ustr ''Person'')"
    using ids_card_epic by (auto simp: df_ids_def)
  with some spec ex ids_wf ids_no_hint ids_card_epic sampler_ok_lib0 mean_ok_lib0 show ?thesis
    by blast
qed

text \<open>
  The claim as stated, with the mean a real number, fails: the digit ratios 1/3, 1/2
  and 2/3 have the mean 1/2, but their float64 mean in the order of the sample is
  0.49999999999999994, so the column is not identifier-like, and it is selected as the
  name column although another column that is not identifier-like exists.
\<close>

lemma code_digit_rate:
  "digit_rate lib0 code_cells = Some (9007199254740991 / 18014398509481984)"
  by (simp add: code_cells_def digit_rate_def sample_def digit_ratio_def isdigit_def lib0_def
      numpy_permutation_def float_eval string_eval)

lemma code_not_epic: "\<not> is_probably_epic lib0 code_cells"
proof -
  have "match_rate lib0 code_cells = Some 0"
    by (simp add: code_cells_def match_rate_def epic_fullmatch_def is_AZ_def is_09_def lib0_def
        float_eval ustr_def)
  then show ?thesis
    by (simp add: is_probably_epic_def code_digit_rate nan_ge_def)
qed

lemma note_not_epic: "\<not> is_probably_epic lib0 note_cells"
  by (simp add: note_cells_def classifier_eval float_eval string_eval)

lemma code_score: "score lib0 code_cells = Some (1 / 2)"
  by (simp add: code_cells_def score_def sample_def alpha_ratio_def isalpha_def lib0_def
      numpy_permutation_def float_eval ustr_def)

lemma note_score: "score lib0 note_cells = Some 0"
  by (simp add: note_cells_def score_def sample_def alpha_ratio_def isalpha_def lib0_def
      numpy_permutation_def float_eval ustr_def)

theorem float_mean_counterexample:
  "sum_list (map (\<lambda>x. real (length (filter (isdigit lib0) x)) / real (length x)) code_cells)
     / real (length code_cells) = 1 / 2
   \<and> \<not> is_probably_epic lib0 code_cells
   \<and> \<not> is_probably_epic lib0 note_cells
   \<and> choose_name_col lib0 env_boundary df_boundary = Inr (ustr ''Code'')"
proof -
  have 1: "sum_list (map (\<lambda>x. real (length (filter (isdigit lib0) x)) / real (length x)) code_cells)
     / real (length code_cells) = 1 / 2"
    by (simp add: code_cells_def isdigit_def ustr_def)
  have "no_hint lib0 env_boundary df_boundary"
    by (simp add: no_hint_def env_boundary_def df_boundary_def force_col_def columns_def
        PREFERRED_NAME_COLUMNS_def lower_no_sigma lower_cp_def lib0_def ustr_def)
  then have "choose_name_col lib0 env_boundary df_boundary = heuristic lib0 df_boundary"
    by (rule no_hint_heuristic)
  also have "\<dots> = Inr (ustr ''Code'')"
    by (simp add: heuristic_def df_boundary_def code_not_epic note_not_epic code_score note_score
        ustr_def)
  finally have 2: "choose_name_col lib0 env_boundary df_boundary = Inr (ustr ''Code'')" .
  from 1 2 code_not_epic note_not_epic show ?thesis
    by (intro conjI)
qed

section \<open>Idempotence of the normalization\<close>

lemma reorder_insert_starter: "k c = 0 \<Longrightarrow> reorder_insert k c acc = c # acc"
  by (cases acc) simp_all

lemma canonical_order_starters:
  assumes "\<forall>c\<in>set s. k c = 0"
  shows "canonical_order k s = s"
proof -
  have "foldl (\<lambda>acc c. reorder_insert k c acc) acc s = rev s @ acc" for acc
    using assms by (induction s arbitrary: acc) (simp_all add: reorder_insert_starter)
  then show ?thesis by (simp add: canonical_order_def)
qed

lemma concat_singletons: "\<forall>c\<in>set s. f c = [c] \<Longrightarrow> concat (map f s) = s"
  by (induction s) simp_all

lemma nfkd_plain:
  assumes "\<forall>c\<in>set s. decomp_cp L c = [c] \<and> ccc L c = 0"
  shows "nfkd L s = s"
proof -
  have "concat (map (decomp_cp L) s) = s"
    using assms by (intro concat_singletons) simp
  with assms show ?thesis
    by (simp add: nfkd_def canonical_order_starters)
qed

lemma lower_plain:
  assumes "\<forall>c\<in>set s. c \<noteq> 931 \<and> lower_cp L c = [c]"
  shows "lower L s = s"
proof -
  from assms have "931 \<notin> set s" by auto
  then have "lower L s = concat (map (lower_cp L) s)" by (rule lower_no_sigma)
  also have "\<dots> = s" using assms by (intro concat_singletons) simp
  finally show ?thesis .
qed

lemma dropWhile_rev_dropWhile:
  assumes "dropWhile P t = t"
  shows "dropWhile P (rev (dropWhile P (rev t))) = rev (dropWhile P (rev t))"
proof (cases t)
  case Nil
  then show ?thesis by simp
next
  case (Cons a t')
  have na: "\<not> P a"
  proof
    assume "P a"
    with assms Cons have "dropWhile P t' = a # t'" by simp
    then have "length (dropWhile P t') = Suc (length t')" by simp
    with length_dropWhile_le [of P t'] show False by simp
  qed
  have "\<exists>w. dropWhile P (rev t' @ [a]) = w @ [a]"
  proof (cases "\<forall>x\<in>set (rev t'). P x")
    case True
    then have "dropWhile P (rev t' @ [a]) = dropWhile P [a]"
      by (intro dropWhile_append2) simp
    with na show ?thesis by simp
  next
    case False
    then obtain x where "x \<in> set (rev t')" "\<not> P x" by blast
    then have "dropWhile P (rev t' @ [a]) = dropWhile P (rev t') @ [a]"
      by (rule dropWhile_append1)
    then show ?thesis by blast
  qed
  then obtain w where "dropWhile P (rev t) = w @ [a]"
    using Cons by auto
  with na show ?thesis by simp
qed

lemma strip_idem: "strip L (strip L s) = strip L s"
proof -
  let ?P = "isspace L"
  let ?t = "dropWhile ?P s"
  have 1: "dropWhile ?P (strip L s) = strip L s"
    unfolding strip_def by (rule dropWhile_rev_dropWhile) (rule dropWhile_idem)
  have "dropWhile ?P (rev (strip L s)) = rev (strip L s)"
    by (simp add: strip_def dropWhile_idem)
  with 1 show ?thesis
    by (simp add: strip_def)
qed

lemma set_strip: "set (strip L s) \<subseteq> set s"
  by (auto simp: strip_def dest!: set_dropWhileD)

lemma strip_marks_plain_idem:
  assumes "list_all (plain_cp L) (strip_marks L x)"
  shows "strip_marks L (strip_marks L x) = strip_marks L x"
proof -
  let ?y = "strip_marks L x"
  from assms have p: "\<forall>c\<in>set ?y. plain_cp L c" by (simp add: list_all_iff)
  have "nfkd L ?y = ?y"
    using p by (intro nfkd_plain) (simp add: plain_cp_def)
  moreover have "filter (\<lambda>ch. \<not> is_Mn L ch) ?y = ?y"
    using p by (simp add: plain_cp_def)
  moreover have "lower L ?y = ?y"
    using p by (intro lower_plain) (simp add: plain_cp_def)
  moreover have "strip L ?y = ?y"
    by (simp add: strip_marks_def strip_idem)
  ultimately show ?thesis
    by (simp add: strip_marks_def [of L ?y])
qed

lemma strip_marks_ascii_plain:
  assumes "list_all (\<lambda>c. c < 128) x"
  shows "list_all (plain_cp L) (strip_marks L x)"
proof -
  from assms have a: "\<forall>c\<in>set x. c < 128" by (simp add: list_all_iff)
  have n: "nfkd L x = x"
    using a by (intro nfkd_plain) (simp add: decomp_cp_def ccc_def)
  have f: "filter (\<lambda>ch. \<not> is_Mn L ch) x = x"
    using a by (auto simp: is_Mn_def filter_id_conv)
  from a have "931 \<notin> set x" by auto
  then have l: "lower L x = concat (map (lower_cp L) x)" by (rule lower_no_sigma)
  have "\<forall>c\<in>set (concat (map (lower_cp L) x)). c < 128 \<and> \<not> (65 \<le> c \<and> c \<le> 90)"
    using a by (auto simp: lower_cp_def split: if_splits)
  then have "\<forall>c\<in>set (strip_marks L x). c < 128 \<and> \<not> (65 \<le> c \<and> c \<le> 90)"
    using set_strip [of L "lower L x"] by (auto simp: strip_marks_def n f l)
  then show ?thesis
    by (auto simp: list_all_iff plain_cp_def decomp_cp_def ccc_def is_Mn_def lower_cp_def)
qed

text \<open>
  Claim C7, as amended. \<open>strip_marks (strip_marks x) = strip_marks x\<close> for every string
  \<open>x\<close> whose normalized form consists of plain code points; in particular for every
  ASCII string.
\<close>

theorem normalize_idempotent_plain:
  "(list_all (plain_cp L) (strip_marks L x) \<longrightarrow>
      strip_marks L (strip_marks L x) = strip_marks L x)
   \<and> (list_all (\<lambda>c. c < 128) x \<longrightarrow>
        list_all (plain_cp L) (strip_marks L x)
        \<and> strip_marks L (strip_marks L x) = strip_marks L x)"
  using strip_marks_plain_idem [of L x] strip_marks_ascii_plain [of x L] by blast

theorem normalize_idempotent_plain_witness:
  "list_all (\<lambda>c. c < 128) (ustr ''  Ravi KUMAR '')
   \<and> strip_marks lib0 (ustr ''  Ravi KUMAR '') = ustr ''ravi kumar''
   \<and> strip_marks lib0 (strip_marks lib0 (ustr ''  Ravi KUMAR '')) = ustr ''ravi kumar''
   \<and> strip_marks lib_marks [2344, 2369, 2350] = [2344, 2350]
   \<and> list_all (plain_cp lib_marks) (strip_marks lib_marks [2344, 2369, 2350])
   \<and> strip_marks lib_marks (strip_marks lib_marks [2344, 2369, 2350]) = [2344, 2350]"
proof -
  have a: "list_all (\<lambda>c. c < 128) (ustr ''  Ravi KUMAR '')"
    by (simp add: ustr_def)
  have v: "strip_marks lib0 (ustr ''  Ravi KUMAR '') = ustr ''ravi kumar''"
    by (simp add: string_eval)
  have "strip_marks lib0 (strip_marks lib0 (ustr ''  Ravi KUMAR '')) = ustr ''ravi kumar''"
    using normalize_idempotent_plain [of lib0 "ustr ''  Ravi KUMAR ''", THEN conjunct2] a v
    by simp
  moreover have d: "strip_marks lib_marks [2344, 2369, 2350] = [2344, 2350]"
    by (simp add: string_eval lib_marks_def lib0_def)
  moreover have p: "list_all (plain_cp lib_marks) (strip_marks lib_marks [2344, 2369, 2350])"
    unfolding d
    by (simp add: plain_cp_def decomp_cp_def ccc_def is_Mn_def lower_cp_def lib_marks_def lib0_def)
  moreover have "strip_marks lib_marks (strip_marks lib_marks [2344, 2369, 2350]) = [2344, 2350]"
    using normalize_idempotent_plain [of lib_marks "[2344, 2369, 2350]", THEN conjunct1] p d
    by simp
  ultimately show ?thesis using a v by simp
qed

text \<open>
  The claim as stated fails: removing the mark U+0941 between two spacing marks of
  classes 226 and 216 leaves them out of canonical order, and a second normalization
  swaps them.
\<close>

theorem normalize_not_idempotent_counterexample:
  "strip_marks lib_marks [119149, 2369, 119141] = [119149, 119141]
   \<and> strip_marks lib_marks (strip_marks lib_marks [119149, 2369, 119141]) = [119141, 119149]
   \<and> strip_marks lib_marks (strip_marks lib_marks [119149, 2369, 119141])
       \<noteq> strip_marks lib_marks [119149, 2369, 119141]"
proof -
  have 1: "strip_marks lib_marks [119149, 2369, 119141] = [119149, 119141]"
    by (simp add: string_eval lib_marks_def lib0_def)
  have 2: "strip_marks lib_marks [119149, 119141] = [119141, 119149]"
    by (simp add: string_eval lib_marks_def lib0_def)
  from 1 2 show ?thesis by simp
qed

section \<open>A successful load leaves a Ready snapshot\<close>

lemma set_item_same: "map_of d k = Some v \<Longrightarrow> set_item d k v = d"
  by (induction d k v rule: set_item.induct) (auto split: if_splits)

lemma set_item_new: "k \<notin> fst ` set d \<Longrightarrow> set_item d k v = d @ [(k, v)]"
  by (induction d k v rule: set_item.induct) auto

lemma heuristic_loop_best:
  "fst (foldl (heuristic_step L) (None, - 1) pre) = Some b \<Longrightarrow> b \<in> fst ` set pre"
proof (induction pre arbitrary: b rule: rev_induct)
  case Nil
  then show ?case by simp
next
  case (snoc p pre)
  obtain c ser where p: "p = (c, ser)" by (cases p)
  obtain best bs where acc: "foldl (heuristic_step L) (None, - 1) pre = (best, bs)"
    by (cases "foldl (heuristic_step L) (None, - 1) pre")
  from snoc.prems p acc have "b = c \<or> best = Some b"
    by (auto split: if_splits option.splits)
  with snoc.IH [of b] acc p show ?case by auto
qed

lemma heuristic_in_columns: "heuristic L df = Inr c \<Longrightarrow> c \<in> set (columns df)"
proof -
  assume a: "heuristic L df = Inr c"
  show ?thesis
  proof (cases "fst (foldl (heuristic_step L) (None, - 1) df)")
    case None
    with a show ?thesis
      by (auto simp: heuristic_def first_column_def split: list.splits)
  next
    case (Some b)
    then have "b \<in> fst ` set df" by (rule heuristic_loop_best)
    with a Some show ?thesis
      by (auto simp: heuristic_def first_column_def columns_def split: list.splits if_splits)
  qed
qed

lemma lower_map_in_columns: "map_of (lower_map L cols) k = Some c \<Longrightarrow> c \<in> set cols"
proof -
  assume a: "map_of (lower_map L cols) k = Some c"
  then have k: "k \<in> lower L ` set cols" and c: "c = last (filter (\<lambda>c. lower L c = k) cols)"
    by (auto simp: map_of_lower_map split: if_splits)
  from k have "filter (\<lambda>c. lower L c = k) cols \<noteq> []"
    by (auto simp: filter_empty_conv)
  then have "last (filter (\<lambda>c. lower L c = k) cols) \<in> set (filter (\<lambda>c. lower L c = k) cols)"
    by (rule last_in_set)
  with c show ?thesis by simp
qed

lemma first_preferred_in_columns:
  "first_preferred L (lower_map L cols) cands = Some c \<Longrightarrow> c \<in> set cols"
  by (induction cands) (auto split: option.splits dest: lower_map_in_columns)

lemma choose_name_col_in_columns:
  assumes "choose_name_col L E df = Inr c"
  shows "c \<in> set (columns df)"
proof -
  have "pick_name_column L (FORCE_NAME_COL E) df = Inr c \<Longrightarrow> c \<in> set (columns df)"
    by (auto simp: pick_name_column_def force_col_def
        split: option.splits if_splits
        dest: first_preferred_in_columns heuristic_in_columns)
  with assms show ?thesis
    by (auto simp: choose_name_col_def split: if_splits)
qed

lemma get_col_in_columns: "c \<in> set (columns df) \<Longrightarrow> \<exists>cells. get_col df c = Inr cells"
  by (cases "map_of df c") (auto simp: get_col_def columns_def map_of_eq_None_iff)

lemma get_col_append:
  "get_col (df @ ex) c = (case get_col df c of Inr cells \<Rightarrow> Inr cells | Inl e \<Rightarrow> get_col ex c)"
  by (auto simp: get_col_def map_add_def split: option.splits)

lemma get_col_Cons:
  "get_col ((k, v) # ex) c = (if c = k then Inr v else get_col ex c)"
  by (simp add: get_col_def)

lemma get_col_Nil: "get_col [] c = Inl KeyError"
  by (simp add: get_col_def)

lemmas get_col_simps = get_col_append get_col_Cons get_col_Nil

lemma wf_frame_append:
  assumes "wf_frame df" and "df \<noteq> []" and "k \<notin> set (columns df)" and "k \<noteq> []"
    and "length v = nrows df"
  shows "wf_frame (df @ [(k, v)])" and "nrows (df @ [(k, v)]) = nrows df"
proof -
  from assms(2) show n: "nrows (df @ [(k, v)]) = nrows df"
    by (cases df) (auto simp: nrows_def)
  from assms show "wf_frame (df @ [(k, v)])"
    unfolding wf_frame_def n by (simp add: columns_def)
qed

lemma add_keys_ready:
  assumes wf: "wf_frame df" and nk: "name_key \<notin> set (columns df)"
    and nn: "name_norm \<notin> set (columns df)" and c: "name_col \<in> set (columns df)"
    and ak: "add_keys L df name_col = Inr df'"
  shows "ready L \<lparr>DF = Some df', NAME_COL = name_col, DISPLAY_COLS = dc\<rparr>"
proof -
  from c obtain col where col: "get_col df name_col = Inr col"
    using get_col_in_columns by blast
  then have m: "map_of df name_col = Some col"
    by (simp add: get_col_def split: option.splits)
  from c have ne: "df \<noteq> []" by (auto simp: columns_def)
  from wf col have len: "length col = nrows df" by (rule get_col_length)
  let ?df2 = "df @ [(name_key, map (exact_key L) col)]"
  let ?df3 = "?df2 @ [(name_norm, map (strip_marks L) col)]"
  have kk: "name_key \<noteq> name_norm" "name_key \<noteq> []" "name_norm \<noteq> []"
    by (simp_all add: name_key_def name_norm_def ustr_def)
  have s1: "set_item df name_col col = df"
    using m by (rule set_item_same)
  have s2: "set_item df name_key (map (exact_key L) col) = ?df2"
    using nk by (intro set_item_new) (simp add: columns_def)
  have c2: "get_col ?df2 name_col = Inr col"
    by (simp add: get_col_simps col)
  have s3: "set_item ?df2 name_norm (map (strip_marks L) col) = ?df3"
    using nn kk by (intro set_item_new) (simp add: columns_def)
  from ak have df': "df' = ?df3"
    by (simp add: add_keys_def col s1 s2 c2 s3)
  have wf2: "wf_frame ?df2" and n2: "nrows ?df2 = nrows df"
    using wf ne nk kk len by (simp_all add: wf_frame_append)
  have "wf_frame ?df3"
  proof (rule wf_frame_append(1) [OF wf2])
    show "?df2 \<noteq> []" by simp
    show "name_norm \<notin> set (columns ?df2)" using nn kk by (simp add: columns_def)
    show "name_norm \<noteq> []" by (rule kk)
    show "length (map (strip_marks L) col) = nrows ?df2" using len n2 by simp
  qed
  moreover have "get_col ?df3 name_col = Inr col"
    by (simp add: get_col_simps col)
  moreover have "get_col df name_key = Inl KeyError" "get_col df name_norm = Inl KeyError"
    using nk nn by (simp_all add: get_col_def columns_def map_of_eq_None_iff [THEN iffD2])
  then have "get_col ?df3 name_key = Inr (map (exact_key L) col)"
    "get_col ?df3 name_norm = Inr (map (strip_marks L) col)"
    using kk by (simp_all add: get_col_simps)
  ultimately show ?thesis
    by (simp add: ready_def df')
qed

text \<open>
  A successful load of a well-formed frame without the two derived labels leaves a
  Ready snapshot.
\<close>

lemma load_dataset_ready:
  assumes "read_csv_with_fallbacks E = Inr df" and "wf_frame df"
    and "name_key \<notin> set (columns df)" and "name_norm \<notin> set (columns df)"
    and "fst (load_dataset L E s) = Inr u"
  shows "ready L (snd (load_dataset L E s))"
proof -
  from assms(1,5) obtain name_col df' where
    n: "choose_name_col L E df = Inr name_col" and a: "add_keys L df name_col = Inr df'"
    and s': "snd (load_dataset L E s)
             = s\<lparr>DF := Some df', NAME_COL := name_col,
                  DISPLAY_COLS := build_display_cols df' name_col\<rparr>"
    by (auto simp: load_dataset_def Let_def split: if_splits sum.splits)
  from n have c: "name_col \<in> set (columns df)" by (rule choose_name_col_in_columns)
  have "ready L \<lparr>DF = Some df', NAME_COL = name_col, DISPLAY_COLS = build_display_cols df' name_col\<rparr>"
    using assms(2,3,4) c a by (rule add_keys_ready)
  then show ?thesis
    by (simp add: s' ready_def)
qed

end
